theory Spec2Isabelle
  imports Complex_Main "HOL-Library.Char_ord" "HOL-Library.List_Lexorder" "HOL-Library.Multiset"
begin

section \<open>Python values, exceptions and text helpers\<close>

text \<open>
  The exceptions that the modelled functions can raise. Each carries the name of the
  variable or attribute the interpreter reports, where it reports one.
\<close>

datatype error =
    EOFError
  | IOError
  | ZeroDivisionError
  | UnboundLocalError string
  | AttributeError string
  | CorrectionError
  | CvError

datatype pyval = PyInt int | PyStr string

definition is_space :: "char \<Rightarrow> bool" where
  "is_space c = (c \<in> set [CHR '' '', CHR 0x09, CHR 0x0A, CHR 0x0B, CHR 0x0C, CHR 0x0D])"

definition is_digit :: "char \<Rightarrow> bool" where
  "is_digit c = (c \<in> set ''0123456789'')"

definition digit_val :: "char \<Rightarrow> nat" where
  "digit_val c = of_char c - of_char (CHR ''0'')"

definition strip :: "string \<Rightarrow> string" where
  "strip s = rev (dropWhile is_space (rev (dropWhile is_space s)))"

definition digits_val :: "string \<Rightarrow> int option" where
  "digits_val ds =
     (if ds \<noteq> [] \<and> list_all is_digit ds
      then Some (int (foldl (\<lambda>n c. 10 * n + digit_val c) 0 ds))
      else None)"

text \<open>
  The builtin \<open>int(s)\<close> on a string, base ten: surrounding whitespace is dropped, one sign
  is allowed, and at least one digit must follow. \<open>None\<close> stands for the raised
  \<open>ValueError\<close>.
\<close>

definition py_int :: "string \<Rightarrow> int option" where
  "py_int s =
     (case strip s of
        [] \<Rightarrow> None
      | c # r \<Rightarrow>
          if c = CHR ''-'' then map_option uminus (digits_val r)
          else if c = CHR ''+'' then digits_val r
          else digits_val (c # r))"

definition digit_char :: "nat \<Rightarrow> char" where
  "digit_char d = ''0123456789'' ! d"

fun str_nat :: "nat \<Rightarrow> string" where
  "str_nat n = (if n < 10 then [digit_char n] else str_nat (n div 10) @ [digit_char (n mod 10)])"

declare str_nat.simps [simp del]

text \<open>\<open>str(n)\<close> and \<open>"%s" % n\<close> for an integer.\<close>

definition str_int :: "int \<Rightarrow> string" where
  "str_int i = (if i < 0 then CHR ''-'' # str_nat (nat (- i)) else str_nat (nat i))"

section \<open>The ordering-preserving serialization helper (utils/sorted\_dict.py)\<close>

text \<open>
  A list object is either a builtin list or the \<open>UnsortableList\<close> subclass; a mapping
  object is either a builtin dict or the \<open>UnsortableOrderedDict\<close> subclass. Both carry
  their entries as key/value pairs in the order in which the object enumerates them.
\<close>

datatype pylist =
    PyList "(string \<times> pyval) list"
  | UnsortableList "(string \<times> pyval) list"

datatype pydict =
    PyDict "(string \<times> pyval) list"
  | UnsortableOrderedDict "(string \<times> pyval) list"

fun elements :: "pylist \<Rightarrow> (string \<times> pyval) list" where
  "elements (PyList xs) = xs"
| "elements (UnsortableList xs) = xs"

text \<open>
  The \<open>sort\<close> method. On a builtin list of pairs with distinct keys it orders the pairs by
  key; \<open>UnsortableList.sort\<close> is \<open>pass\<close>.
\<close>

fun sort_method :: "pylist \<Rightarrow> pylist" where
  "sort_method (PyList xs) = PyList (sort_key fst xs)"
| "sort_method (UnsortableList xs) = UnsortableList xs"

text \<open>
  The \<open>items\<close> method: a builtin list for a dict, and
  \<open>UnsortableList(OrderedDict.items(self))\<close> for the subclass.
\<close>

fun items :: "pydict \<Rightarrow> pylist" where
  "items (PyDict kvs) = PyList kvs"
| "items (UnsortableOrderedDict kvs) = UnsortableList kvs"

text \<open>
  The serializer's mapping representer, which both classes are registered with
  (\<open>yaml.add_representer(UnsortableOrderedDict, SafeRepresenter.represent_dict)\<close>): it takes
  \<open>mapping.items()\<close>, calls \<open>sort()\<close> on the result and emits the entries in the order
  that is left. The document is kept as that sequence of entries.
\<close>

definition represent_dict :: "pydict \<Rightarrow> (string \<times> pyval) list" where
  "represent_dict mapping = elements (sort_method (items mapping))"

section \<open>The configuration prompt tool (configure.py)\<close>

text \<open>
  The terminal and the file system the tool runs in: the lines the user will type, what
  has been written to the screen, the directories that exist, and the documents
  written so far.
\<close>

record terminal =
  stdin :: "string list"
  stdout :: "string list"
  dirs :: "string set"
  documents :: "string \<rightharpoonup> (string \<times> pyval) list"

definition config_dir :: string where
  "config_dir = ''config''"

definition print_line :: "string \<Rightarrow> terminal \<Rightarrow> terminal" where
  "print_line s t = t\<lparr>stdout := stdout t @ [s]\<rparr>"

text \<open>\<open>raw_input(prompt)\<close>: shows the prompt and reads one line; end of input raises.\<close>

definition raw_input :: "string \<Rightarrow> terminal \<Rightarrow> (error + string) \<times> terminal" where
  "raw_input prompt t =
     (let t' = print_line prompt t in
      case stdin t' of
        [] \<Rightarrow> (Inl EOFError, t')
      | l # ls \<Rightarrow> (Inr l, t'\<lparr>stdin := ls\<rparr>))"

text \<open>
  One \<open>try: v = int(raw_input(prompt)) except ValueError: print ...\<close> block. The result
  \<open>None\<close> means that the local variable was not assigned.
\<close>

definition try_int_input :: "string \<Rightarrow> terminal \<Rightarrow> (error + int option) \<times> terminal" where
  "try_int_input prompt t =
     (case raw_input prompt t of
        (Inl e, t') \<Rightarrow> (Inl e, t')
      | (Inr s, t') \<Rightarrow>
          (case py_int s of
             Some n \<Rightarrow> (Inr (Some n), t')
           | None \<Rightarrow> (Inr None, print_line ''Please enter a number.'' t')))"

text \<open>
  \<open>with open(config_dir + '/profile.yml', 'w') as file: yaml.dump(settings, file, ...)\<close>:
  opening fails when the directory does not exist.
\<close>

definition yaml_dump :: "pydict \<Rightarrow> string \<Rightarrow> terminal \<Rightarrow> (error + unit) \<times> terminal" where
  "yaml_dump settings dir t =
     (if dir \<in> dirs t
      then (Inr (), t\<lparr>documents := (documents t)(dir @ ''/profile.yml'' \<mapsto> represent_dict settings)\<rparr>)
      else (Inl IOError, t))"

text \<open>
  \<open>parse\<close>. A local that no \<open>try\<close> block assigned is unbound when the settings literal
  reads it, in the order of the literal. The settings are a builtin dict; its entries are
  listed here in the order of the literal, and the representer's result does not depend
  on the order in which a builtin dict enumerates them.
\<close>

definition parse :: "terminal \<Rightarrow> (error + unit) \<times> terminal" where
  "parse t0 =
     (case try_int_input ''Enter index of left camera: '' t0 of
        (Inl e, t1) \<Rightarrow> (Inl e, t1)
      | (Inr left_index, t1) \<Rightarrow>
     (case try_int_input ''Enter index of right camer: '' t1 of
        (Inl e, t2) \<Rightarrow> (Inl e, t2)
      | (Inr right_index, t2) \<Rightarrow>
     (case raw_input ''Enter full path to image source directory: '' t2 of
        (Inl e, t3) \<Rightarrow> (Inl e, t3)
      | (Inr source_dir, t3) \<Rightarrow>
     (case raw_input ''Enter full path to image output directory: '' t3 of
        (Inl e, t4) \<Rightarrow> (Inl e, t4)
      | (Inr dest_dir, t4) \<Rightarrow>
     (case raw_input ''Enter full path to key frame image: '' t4 of
        (Inl e, t5) \<Rightarrow> (Inl e, t5)
      | (Inr key_frame, t5) \<Rightarrow>
     (case try_int_input ''Enter image width: '' t5 of
        (Inl e, t6) \<Rightarrow> (Inl e, t6)
      | (Inr width, t6) \<Rightarrow>
     (case raw_input ''Enter image format: '' t6 of
        (Inl e, t7) \<Rightarrow> (Inl e, t7)
      | (Inr format, t7) \<Rightarrow>
     (case left_index of
        None \<Rightarrow> (Inl (UnboundLocalError ''left_index''), t7)
      | Some li \<Rightarrow>
     (case right_index of
        None \<Rightarrow> (Inl (UnboundLocalError ''right_index''), t7)
      | Some ri \<Rightarrow>
     (case width of
        None \<Rightarrow> (Inl (UnboundLocalError ''width''), t7)
      | Some wd \<Rightarrow>
          yaml_dump
            (PyDict [(''left-index'', PyInt li), (''right-index'', PyInt ri),
                     (''source-dir'', PyStr source_dir), (''dest-dir'', PyStr dest_dir),
                     (''key-frame'', PyStr key_frame), (''width'', PyInt wd),
                     (''format'', PyStr format)])
            config_dir t7))))))))))"

text \<open>Two concrete sessions: every answer well formed, and a left index that is no number.\<close>

definition good_session :: terminal where
  "good_session =
     \<lparr>stdin = [''0'', ''1'', ''in'', ''out'', ''key.jpg'', ''640'', ''jpg''],
      stdout = [], dirs = {''config''}, documents = Map.empty\<rparr>"

definition bad_session :: terminal where
  "bad_session =
     \<lparr>stdin = [''left'', ''1'', ''in'', ''out'', ''key.jpg'', ''640'', ''jpg''],
      stdout = [], dirs = {''config''}, documents = Map.empty\<rparr>"

definition insertion_order :: "string list" where
  "insertion_order =
     [''left-index'', ''right-index'', ''source-dir'', ''dest-dir'', ''key-frame'', ''width'',
      ''format'']"

section \<open>Frames, capture devices and the platform (the vision library)\<close>

text \<open>
  A frame is a pixel buffer with its shape (\<open>frame.shape[:2]\<close> is rows, columns) and an
  identifier of its content. A source is a camera index or a video file path.
\<close>

datatype frame = Frame (rows: nat) (cols: nat) (pixels: nat)

datatype source = Camera int | File string

datatype disk_file = Image frame | Video string int "nat \<times> nat" "frame list"

datatype event =
    Opened source
  | Released source
  | Printed string
  | Stderr string
  | Info string
  | Error string
  | Slept real
  | WriterReleased string

record datetime =
  year :: nat
  month :: nat
  day :: nat
  hour :: nat
  minute :: nat
  second :: nat
  microsecond :: nat

text \<open>
  What the code does not own and only calls: the frames a freshly opened source delivers,
  position by position (\<open>None\<close>: no frame can be read there); the time that reading and
  processing one frame takes; the time a sleep takes beyond the requested duration (the
  residual that the overhead constant of \<open>get_next\<close> was measured for); the distortion
  corrector and the resize of the imaging library; the local calendar time of a clock
  reading; the colouring and marks of \<open>TextFormatter\<close>, whose module is not among
  the sources; the directories that exist on disk (the code creates none); and the file
  extensions for which the imaging library has an image encoder.
\<close>

record platform =
  device :: "source \<Rightarrow> nat \<Rightarrow> frame option"
  proc_time :: real
  sleep_residual :: real
  correct_distortion :: "frame \<Rightarrow> frame"
  resize :: "frame \<Rightarrow> nat \<Rightarrow> frame"
  local_time :: "real \<Rightarrow> datetime"
  color_text :: "string \<Rightarrow> string \<Rightarrow> string"
  get_check :: string
  get_xmark :: string
  directories :: "string set"
  encoders :: "string set"

text \<open>
  The mutable world: the wall clock (\<open>time.time()\<close>), the calls made on devices, screen
  and writer so far (oldest first), and the files on disk.
\<close>

record world =
  clock :: real
  trace :: "event list"
  files :: "string \<rightharpoonup> disk_file"

definition emit :: "event \<Rightarrow> world \<Rightarrow> world" where
  "emit e w = w\<lparr>trace := trace w @ [e]\<rparr>"

text \<open>The library's capture handle: \<open>cv2.VideoCapture(src)\<close> opens at the first frame.\<close>

record video_capture =
  src :: source
  opened :: bool
  position :: nat

definition VideoCapture :: "source \<Rightarrow> video_capture" where
  "VideoCapture s = \<lparr>src = s, opened = True, position = 0\<rparr>"

text \<open>\<open>grab()\<close> advances past one frame and says whether there was one.\<close>

definition grab :: "platform \<Rightarrow> video_capture \<Rightarrow> bool \<times> video_capture" where
  "grab p c =
     (if opened c \<and> device p (src c) (position c) \<noteq> None
      then (True, c\<lparr>position := Suc (position c)\<rparr>)
      else (False, c))"

text \<open>\<open>read()[1]\<close>: grab and decode; \<open>None\<close> when nothing was grabbed.\<close>

definition read :: "platform \<Rightarrow> video_capture \<Rightarrow> frame option \<times> video_capture" where
  "read p c =
     (if opened c
      then (case device p (src c) (position c) of
              None \<Rightarrow> (None, c)
            | Some f \<Rightarrow> (Some f, c\<lparr>position := Suc (position c)\<rparr>))
      else (None, c))"

definition release :: "video_capture \<Rightarrow> world \<Rightarrow> video_capture \<times> world" where
  "release c w = (c\<lparr>opened := False\<rparr>, emit (Released (src c)) w)"

text \<open>
  Modelled from the spec: the distortion corrector \<open>correct_distortion\<close> of
  \<open>app.stitcher.correction.corrector\<close> is a pure function from one frame buffer to one
  corrected frame buffer, and its failures are fatal for the current frame. Called on
  \<open>None\<close> it fails.
\<close>

definition call_correct_distortion :: "platform \<Rightarrow> frame option \<Rightarrow> error + frame option" where
  "call_correct_distortion p frame =
     (case frame of
        None \<Rightarrow> Inl CorrectionError
      | Some f \<Rightarrow> Inr (Some (correct_distortion p f)))"

text \<open>\<open>imutils.resize(frame, width=w)\<close>: reads \<open>frame.shape\<close> first, which \<open>None\<close> lacks.\<close>

definition call_resize :: "platform \<Rightarrow> frame option \<Rightarrow> nat \<Rightarrow> error + frame option" where
  "call_resize p frame w =
     (case frame of
        None \<Rightarrow> Inl (AttributeError ''shape'')
      | Some f \<Rightarrow> Inr (Some (resize p f w)))"

text \<open>
  \<open>time.sleep(d)\<close>: the clock moves on by the requested duration and by what the platform
  adds to it.
\<close>

definition sleep :: "platform \<Rightarrow> real \<Rightarrow> world \<Rightarrow> world" where
  "sleep p d w = emit (Slept d) (w\<lparr>clock := clock w + d + sleep_residual p\<rparr>)"

section \<open>Feeds (app/util/feed.py)\<close>

record feed =
  width :: nat
  height :: nat

record CameraFeed = feed +
  feed_index :: int
  camera_feed :: video_capture
  fps :: int
  frame_duration :: real

record VideoFeed = feed +
  path :: string
  video_feed :: video_capture

definition overhead_constant :: real where
  "overhead_constant = 72906 / 1000000"

text \<open>
  \<open>CameraFeed.__init__(feed_index, width=640, height=480, fps=30)\<close>; the division
  \<open>1.0 / fps\<close> raises for \<open>fps = 0\<close>, after the device was opened.
\<close>

definition CameraFeed_init ::
  "int \<Rightarrow> nat \<Rightarrow> nat \<Rightarrow> int \<Rightarrow> world \<Rightarrow> (error + CameraFeed) \<times> world" where
  "CameraFeed_init idx wd ht rate w =
     (let w' = emit (Opened (Camera idx)) w in
      if rate = 0 then (Inl ZeroDivisionError, w')
      else (Inr \<lparr>width = wd, height = ht, feed_index = idx,
                 camera_feed = VideoCapture (Camera idx), fps = rate,
                 frame_duration = 1 / real_of_int rate\<rparr>, w'))"

definition VideoFeed_init :: "string \<Rightarrow> nat \<Rightarrow> nat \<Rightarrow> world \<Rightarrow> VideoFeed \<times> world" where
  "VideoFeed_init pth wd ht w =
     (\<lparr>width = wd, height = ht, path = pth, video_feed = VideoCapture (File pth)\<rparr>,
      emit (Opened (File pth)) w)"

definition CameraFeed_is_valid ::
  "platform \<Rightarrow> CameraFeed \<Rightarrow> world \<Rightarrow> bool \<times> CameraFeed \<times> world" where
  "CameraFeed_is_valid p self w =
     (case grab p (camera_feed self) of
        (frame_indicator, cap) \<Rightarrow>
          if frame_indicator then
            (let msg = ''Index '' @ color_text p (str_int (feed_index self)) ''magenta''
                         @ '' is valid '' @ get_check p;
                 w1 = emit (Printed msg) w;
                 w2 = snd (release cap w1);
                 w3 = emit (Opened (Camera (feed_index self))) w2
             in (True, self\<lparr>camera_feed := VideoCapture (Camera (feed_index self))\<rparr>, w3))
          else
            (let msg = ''Index '' @ color_text p (str_int (feed_index self)) ''magenta''
                         @ '' is invalid '' @ get_xmark p
             in (False, self\<lparr>camera_feed := cap\<rparr>, emit (Printed msg) w)))"

definition CameraFeed_has_next :: "platform \<Rightarrow> CameraFeed \<Rightarrow> bool \<times> CameraFeed" where
  "CameraFeed_has_next p self =
     (case grab p (camera_feed self) of
        (b, cap) \<Rightarrow> (b, self\<lparr>camera_feed := cap\<rparr>))"

text \<open>
  \<open>CameraFeed.get_next(resize, correct)\<close>. The clock is read before the blocking read and
  after the processing, which together take \<open>proc_time\<close>. Times are real numbers here;
  the source computes the remainder in double precision, so its test can differ from this
  one when the remainder is within rounding of zero. For a feed at 30 fps the remainder is
  below zero by more than 0.039 and no rounding changes its sign.
\<close>

definition CameraFeed_get_next ::
  "platform \<Rightarrow> bool \<Rightarrow> bool \<Rightarrow> CameraFeed \<Rightarrow> world \<Rightarrow> (error + frame option) \<times> CameraFeed \<times> world" where
  "CameraFeed_get_next p do_resize correct self w =
     (let start_time = clock w in
      case read p (camera_feed self) of
        (frame0, cap) \<Rightarrow>
     (let self' = self\<lparr>camera_feed := cap\<rparr>;
          w1 = w\<lparr>clock := clock w + proc_time p\<rparr> in
      case (if correct then call_correct_distortion p frame0 else Inr frame0) of
        Inl e \<Rightarrow> (Inl e, self', w1)
      | Inr frame1 \<Rightarrow>
     (case (if do_resize then call_resize p frame1 (width self') else Inr frame1) of
        Inl e \<Rightarrow> (Inl e, self', w1)
      | Inr frame2 \<Rightarrow>
     (let end_time = clock w1;
          elapsed_time = end_time - start_time;
          time_left = frame_duration self' - elapsed_time;
          time_left_adjusted = time_left - overhead_constant
      in if time_left_adjusted > 0
         then (Inr frame2, self', sleep p time_left_adjusted w1)
         else (Inr frame2, self', w1)))))"

fun ramp_loop ::
  "platform \<Rightarrow> nat \<Rightarrow> CameraFeed \<Rightarrow> world \<Rightarrow> (error + unit) \<times> CameraFeed \<times> world" where
  "ramp_loop p 0 self w = (Inr (), self, w)"
| "ramp_loop p (Suc n) self w =
     (case CameraFeed_get_next p True True self w of
        (Inl e, self', w') \<Rightarrow> (Inl e, self', w')
      | (Inr _, self', w') \<Rightarrow> ramp_loop p n self' w')"

text \<open>
  \<open>ramp(num_frames=30)\<close>: one loop of \<open>get_next()\<close> calls, over \<open>xrange\<close> or, where
  that name is missing, over \<open>range\<close>; the range of a negative number is empty.
\<close>

definition ramp ::
  "platform \<Rightarrow> int \<Rightarrow> CameraFeed \<Rightarrow> world \<Rightarrow> (error + unit) \<times> CameraFeed \<times> world" where
  "ramp p num_frames self w = ramp_loop p (nat num_frames) self w"

definition CameraFeed_close :: "CameraFeed \<Rightarrow> world \<Rightarrow> CameraFeed \<times> world" where
  "CameraFeed_close self w =
     (case release (camera_feed self) w of
        (cap, w') \<Rightarrow> (self\<lparr>camera_feed := cap\<rparr>, w'))"

definition VideoFeed_is_valid ::
  "platform \<Rightarrow> VideoFeed \<Rightarrow> world \<Rightarrow> bool \<times> VideoFeed \<times> world" where
  "VideoFeed_is_valid p self w =
     (case grab p (video_feed self) of
        (frame_indicator, cap) \<Rightarrow>
          if frame_indicator then
            (let msg = ''Video file '' @ color_text p (path self) ''magenta''
                         @ '' is valid '' @ get_check p;
                 w1 = emit (Stderr msg) w;
                 w2 = snd (release cap w1);
                 w3 = emit (Opened (File (path self))) w2
             in (True, self\<lparr>video_feed := VideoCapture (File (path self))\<rparr>, w3))
          else
            (let msg = ''Video file '' @ color_text p (path self) ''magenta''
                         @ '' is invalid '' @ get_xmark p
             in (False, self\<lparr>video_feed := cap\<rparr>, emit (Stderr msg) w)))"

definition VideoFeed_has_next :: "platform \<Rightarrow> VideoFeed \<Rightarrow> bool \<times> VideoFeed" where
  "VideoFeed_has_next p self =
     (case grab p (video_feed self) of
        (b, cap) \<Rightarrow> (b, self\<lparr>video_feed := cap\<rparr>))"

definition VideoFeed_get_next ::
  "platform \<Rightarrow> bool \<Rightarrow> bool \<Rightarrow> VideoFeed \<Rightarrow> (error + frame option) \<times> VideoFeed" where
  "VideoFeed_get_next p do_resize correct self =
     (case read p (video_feed self) of
        (frame0, cap) \<Rightarrow>
     (let self' = self\<lparr>video_feed := cap\<rparr> in
      case (if correct then call_correct_distortion p frame0 else Inr frame0) of
        Inl e \<Rightarrow> (Inl e, self')
      | Inr frame1 \<Rightarrow>
     (case (if do_resize then call_resize p frame1 (width self') else Inr frame1) of
        Inl e \<Rightarrow> (Inl e, self')
      | Inr frame2 \<Rightarrow> (Inr frame2, self'))))"

definition VideoFeed_close :: "VideoFeed \<Rightarrow> world \<Rightarrow> VideoFeed \<times> world" where
  "VideoFeed_close self w =
     (case release (video_feed self) w of
        (cap, w') \<Rightarrow> (self\<lparr>video_feed := cap\<rparr>, w'))"

section \<open>The capture orchestrator (app/util/capture.py)\<close>

definition zero_pad :: "nat \<Rightarrow> string \<Rightarrow> string" where
  "zero_pad n s = replicate (n - length s) (CHR ''0'') @ s"

text \<open>
  \<open>timestamp.strftime("%Y-%m-%d-%H-%M-%S")\<close>: the year in full, every other field on two
  digits. The microsecond is not printed.
\<close>

definition strftime :: "datetime \<Rightarrow> string" where
  "strftime d =
     str_nat (year d) @ ''-'' @ zero_pad 2 (str_nat (month d)) @ ''-'' @
     zero_pad 2 (str_nat (day d)) @ ''-'' @ zero_pad 2 (str_nat (hour d)) @ ''-'' @
     zero_pad 2 (str_nat (minute d)) @ ''-'' @ zero_pad 2 (str_nat (second d))"

definition os_path_sep :: string where
  "os_path_sep = ''/''"

text \<open>\<open>datetime.datetime.now()\<close> is the local calendar time of the clock.\<close>

definition create_filepath :: "platform \<Rightarrow> string \<Rightarrow> string \<Rightarrow> world \<Rightarrow> string" where
  "create_filepath p output_folder filetype w =
     (let timestamp = local_time p (clock w);
          file_name = strftime timestamp @ ''.'' @ filetype
      in output_folder @ os_path_sep @ file_name)"

text \<open>
  \<open>TextFormatter.print_info\<close> and \<open>TextFormatter.print_error\<close>: each call is recorded in
  the trace with its message.
\<close>

definition print_info :: "string \<Rightarrow> world \<Rightarrow> world" where
  "print_info msg w = emit (Info msg) w"

definition print_error :: "string \<Rightarrow> world \<Rightarrow> world" where
  "print_error msg w = emit (Error msg) w"

text \<open>The directory part of a path: what stands before its last separator.\<close>

definition dirname :: "string \<Rightarrow> string" where
  "dirname fp = rev (tl (dropWhile (\<lambda>c. c \<noteq> CHR ''/'') (rev fp)))"

text \<open>The extension of a path: what stands after its last dot.\<close>

definition extension :: "string \<Rightarrow> string" where
  "extension fp = rev (takeWhile (\<lambda>c. c \<noteq> CHR ''.'') (rev fp))"

text \<open>
  \<open>cv2.imwrite(filepath, frame)\<close>. The library raises on an empty image and on a path
  whose extension has no encoder. Otherwise it returns whether the file was written:
  when the directory of the path does not exist it writes nothing and returns false.
\<close>

definition imwrite ::
  "platform \<Rightarrow> string \<Rightarrow> frame option \<Rightarrow> world \<Rightarrow> error + bool \<times> world" where
  "imwrite p filepath img w =
     (case img of
        None \<Rightarrow> Inl CvError
      | Some f \<Rightarrow>
          if CHR ''.'' \<notin> set filepath \<or> extension filepath \<notin> encoders p then Inl CvError
          else if dirname filepath \<in> directories p
          then Inr (True, w\<lparr>files := (files w)(filepath \<mapsto> Image f)\<rparr>)
          else Inr (False, w))"

text \<open>
  The library's video writer: target file, codec, frame rate, size, frames so far. The
  writer is taken to be able to create its target file.
\<close>

record video_writer =
  target :: string
  fourcc :: string
  rate :: int
  frame_size :: "nat \<times> nat"
  written :: "frame list"

definition VideoWriter :: "string \<Rightarrow> string \<Rightarrow> int \<Rightarrow> nat \<times> nat \<Rightarrow> video_writer" where
  "VideoWriter filepath codec r sz =
     \<lparr>target = filepath, fourcc = codec, rate = r, frame_size = sz, written = []\<rparr>"

definition writer_write :: "video_writer \<Rightarrow> frame \<Rightarrow> video_writer" where
  "writer_write wr f = wr\<lparr>written := written wr @ [f]\<rparr>"

definition writer_release :: "video_writer \<Rightarrow> world \<Rightarrow> world" where
  "writer_release wr w =
     emit (WriterReleased (target wr))
       (w\<lparr>files := (files w)(target wr \<mapsto> Video (fourcc wr) (rate wr) (frame_size wr) (written wr))\<rparr>)"

text \<open>
  \<open>capture_single_frame\<close>. The result of \<open>cv2.imwrite\<close> is not looked at: the message is
  printed whether or not the file was written.
\<close>

definition capture_single_frame ::
  "platform \<Rightarrow> int \<Rightarrow> string \<Rightarrow> string \<Rightarrow> world \<Rightarrow> (error + unit) \<times> world" where
  "capture_single_frame p idx output_dir filetype w =
     (case CameraFeed_init idx 640 480 30 w of
        (Inl e, w1) \<Rightarrow> (Inl e, w1)
      | (Inr feed0, w1) \<Rightarrow>
     (case ramp p 30 feed0 w1 of
        (Inl e, _, w2) \<Rightarrow> (Inl e, w2)
      | (Inr _, feed1, w2) \<Rightarrow>
     (case CameraFeed_get_next p True True feed1 w2 of
        (Inl e, _, w3) \<Rightarrow> (Inl e, w3)
      | (Inr img, feed2, w3) \<Rightarrow>
     (let filepath = create_filepath p output_dir filetype w3 in
      case imwrite p filepath img w3 of
        Inl e \<Rightarrow> (Inl e, w3)
      | Inr (_, w4) \<Rightarrow>
          (let w5 = print_info ''Frame was captured.'' w4
           in (Inr (), snd (CameraFeed_close feed2 w5)))))))"

text \<open>
  The \<open>while time.time() < start_time + duration\<close> loop of \<open>capture_single_video\<close>, with
  the locals it changes: the feed and the writer (\<open>None\<close> until the first frame). The loop
  may run forever, so its result is optional.
\<close>

partial_function (option) capture_loop ::
  "platform \<Rightarrow> real \<Rightarrow> string \<Rightarrow> int \<Rightarrow> CameraFeed \<Rightarrow> video_writer option \<Rightarrow> world \<Rightarrow>
   ((error + CameraFeed \<times> video_writer option) \<times> world) option" where
  "capture_loop p deadline filepath r self writer w =
     (if clock w < deadline then
        (case CameraFeed_get_next p True True self w of
           (Inl e, self', w') \<Rightarrow> Some (Inl e, w')
         | (Inr img, self', w') \<Rightarrow>
             (case img of
                None \<Rightarrow>
                  Some (Inl (case writer of None \<Rightarrow> AttributeError ''shape''
                             | Some _ \<Rightarrow> CvError), w')
              | Some f \<Rightarrow>
                  (let wr = (case writer of
                               None \<Rightarrow> VideoWriter filepath ''MJPG'' r (cols f, rows f)
                             | Some wr0 \<Rightarrow> wr0)
                   in capture_loop p deadline filepath r self' (Some (writer_write wr f)) w')))
      else Some (Inr (self, writer), w))"

declare capture_loop.simps [code]

text \<open>
  The body of \<open>capture_single_video\<close>. On a normal return the result carries the locals
  \<open>camera_feed\<close> and \<open>writer\<close> as they are then; the function itself returns nothing.
\<close>

definition capture_single_video_body ::
  "platform \<Rightarrow> int \<Rightarrow> int \<Rightarrow> int \<Rightarrow> string \<Rightarrow> string \<Rightarrow> world \<Rightarrow>
   ((error + CameraFeed \<times> video_writer) \<times> world) option" where
  "capture_single_video_body p idx duration r output_dir filetype w =
     (case CameraFeed_init idx 640 480 30 w of
        (Inl e, w1) \<Rightarrow> Some (Inl e, w1)
      | (Inr feed0, w1) \<Rightarrow>
     (case ramp p r feed0 w1 of
        (Inl e, _, w2) \<Rightarrow> Some (Inl e, w2)
      | (Inr _, feed1, w2) \<Rightarrow>
     (let start_time = clock w2;
          filepath = create_filepath p output_dir filetype w2
      in case capture_loop p (start_time + real_of_int duration) filepath r feed1 None w2 of
           None \<Rightarrow> None
         | Some (Inl e, w3) \<Rightarrow> Some (Inl e, w3)
         | Some (Inr (feed2, writer), w3) \<Rightarrow>
             (case writer of
                None \<Rightarrow> Some (Inl (AttributeError ''release''), w3)
              | Some wr \<Rightarrow>
                  (let w4 = writer_release wr w3 in
                   case CameraFeed_close feed2 w4 of
                     (feed3, w5) \<Rightarrow>
                       Some (Inr (feed3, wr),
                             print_info (''Video was captured for '' @ str_int duration
                                          @ '' seconds.'') w5))))))"

definition capture_single_video ::
  "platform \<Rightarrow> int \<Rightarrow> int \<Rightarrow> int \<Rightarrow> string \<Rightarrow> string \<Rightarrow> world \<Rightarrow>
   ((error + unit) \<times> world) option" where
  "capture_single_video p idx duration r output_dir filetype w =
     map_option (\<lambda>(res, w'). (map_sum id (\<lambda>_. ()) res, w'))
       (capture_single_video_body p idx duration r output_dir filetype w)"

text \<open>
  \<open>main\<close>, from the parsed arguments \<open>(capture_type, num_cameras)\<close>. The capture functions
  are called with their defaults: index 0, \<open>out/captured_frames\<close> and \<open>jpg\<close> for a frame;
  index 0, duration 5, fps 30, \<open>out/captured_videos\<close> and \<open>avi\<close> for a video.
\<close>

definition main :: "platform \<Rightarrow> string \<times> int \<Rightarrow> world \<Rightarrow> ((error + unit) \<times> world) option" where
  "main p parsed_args w =
     (let capture_type = fst parsed_args;
          num_cameras = snd parsed_args
      in if capture_type = ''frame'' then
           (if num_cameras = 1
            then Some (capture_single_frame p 0 ''out/captured_frames'' ''jpg'' w)
            else Some (Inr (), print_info (''You chose to capture frames for ''
                                            @ str_int num_cameras @ '' cameras.'') w))
         else if capture_type = ''video'' then
           (if num_cameras = 1
            then capture_single_video p 0 5 30 ''out/captured_videos'' ''avi'' w
            else Some (Inr (), print_info (''You chose to capture video for ''
                                            @ str_int num_cameras @ '' cameras.'') w))
         else Some (Inr (), print_error ''Please provide a proper capture argument.'' w))"

section \<open>Notions used in the statements\<close>

text \<open>Two calendar readings fall into the same clock second.\<close>

definition same_second :: "datetime \<Rightarrow> datetime \<Rightarrow> bool" where
  "same_second a b =
     (year a = year b \<and> month a = month b \<and> day a = day b \<and>
      hour a = hour b \<and> minute a = minute b \<and> second a = second b)"

text \<open>A calendar reading with a four-digit year and every field in its range.\<close>

definition valid_datetime :: "datetime \<Rightarrow> bool" where
  "valid_datetime d =
     (1000 \<le> year d \<and> year d \<le> 9999 \<and> 1 \<le> month d \<and> month d \<le> 12 \<and>
      1 \<le> day d \<and> day d \<le> 31 \<and> hour d \<le> 23 \<and> minute d \<le> 59 \<and> second d \<le> 59)"

text \<open>
  The shape \<open>YYYY-MM-DD-HH-MM-SS\<close>: nineteen characters, hyphens at the five separator
  positions and digits everywhere else.
\<close>

definition stamp_shape :: "string \<Rightarrow> bool" where
  "stamp_shape s =
     (length s = 19 \<and>
      list_all (\<lambda>i. if i \<in> set [4, 7, 10, 13, 16] then s ! i = CHR ''-'' else is_digit (s ! i))
        [0..<19])"

text \<open>The part of a file path between the last separator and the last dot.\<close>

definition basename :: "string \<Rightarrow> string" where
  "basename fp =
     (let file_name = rev (takeWhile (\<lambda>c. c \<noteq> CHR ''/'') (rev fp))
      in rev (tl (dropWhile (\<lambda>c. c \<noteq> CHR ''.'') (rev file_name))))"

definition is_message :: "event \<Rightarrow> bool" where
  "is_message e = (case e of Info _ \<Rightarrow> True | Error _ \<Rightarrow> True | _ \<Rightarrow> False)"

text \<open>A feed whose handle has moved on by \<open>n\<close> frames, and a world \<open>t\<close> seconds later.\<close>

definition advance :: "nat \<Rightarrow> CameraFeed \<Rightarrow> CameraFeed" where
  "advance n self =
     self\<lparr>camera_feed := (camera_feed self)\<lparr>position := position (camera_feed self) + n\<rparr>\<rparr>"

definition later :: "real \<Rightarrow> world \<Rightarrow> world" where
  "later t w = w\<lparr>clock := clock w + t\<rparr>"

text \<open>What \<open>get_next()\<close> returns for the frame at position \<open>i\<close> of camera \<open>idx\<close>.\<close>

definition processed :: "platform \<Rightarrow> int \<Rightarrow> nat \<Rightarrow> frame" where
  "processed p idx i = resize p (correct_distortion p (the (device p (Camera idx) i))) 640"

text \<open>What \<open>get_next(resize, correct)\<close> makes of a frame that was read, for a target width.\<close>

definition post :: "platform \<Rightarrow> bool \<Rightarrow> bool \<Rightarrow> nat \<Rightarrow> frame \<Rightarrow> frame" where
  "post p do_resize correct wd f =
     (let g = (if correct then correct_distortion p f else f)
      in if do_resize then resize p g wd else g)"

text \<open>The number of loop rounds after which \<open>remaining\<close> seconds have passed.\<close>

definition rounds :: "real \<Rightarrow> real \<Rightarrow> nat" where
  "rounds remaining t = nat \<lceil>remaining / t\<rceil>"

text \<open>
  The writer after the loop has handled the frames \<open>fs\<close> in turn: created from the first
  frame it sees when it was still unset, and each frame appended.
\<close>

definition fed :: "string \<Rightarrow> int \<Rightarrow> video_writer option \<Rightarrow> frame list \<Rightarrow> video_writer option" where
  "fed filepath r writer fs =
     fold (\<lambda>f wo. Some (writer_write
                          (case wo of
                             None \<Rightarrow> VideoWriter filepath ''MJPG'' r (cols f, rows f)
                           | Some wr0 \<Rightarrow> wr0) f)) fs writer"

section \<open>Concrete inputs\<close>

text \<open>
  A platform with one camera that always delivers (index 0), one that never does, and a
  two-frame clip; half a second per frame; a sleep residual equal to the calibrated one;
  the two output directories in place, and encoders for \<open>jpg\<close> and \<open>png\<close>.
\<close>

definition studio :: platform where
  "studio =
     \<lparr>device = (\<lambda>s i. case s of
                  Camera n \<Rightarrow> (if n = 0 then Some (Frame 480 640 i) else None)
                | File f \<Rightarrow> (if f = ''clip.avi'' \<and> i < 2 then Some (Frame 720 1280 i) else None)),
      proc_time = 1 / 2,
      sleep_residual = 72906 / 1000000,
      correct_distortion = (\<lambda>f. f),
      resize = (\<lambda>f w. Frame (rows f * w div cols f) w (pixels f)),
      local_time = (\<lambda>t. \<lparr>year = 2026, month = 11, day = 5, hour = 23, minute = 51,
                          second = nat \<lfloor>t\<rfloor> mod 60,
                          microsecond = nat \<lfloor>frac t * 1000000\<rfloor>\<rparr>),
      color_text = (\<lambda>s c. s),
      get_check = ''[ok]'',
      get_xmark = ''[x]'',
      directories = {''out/captured_frames'', ''out/captured_videos''},
      encoders = {''jpg'', ''png''}\<rparr>"

definition boot :: world where
  "boot = \<lparr>clock = 0, trace = [], files = Map.empty\<rparr>"

definition default_feed :: "int \<Rightarrow> CameraFeed" where
  "default_feed idx =
     \<lparr>width = 640, height = 480, feed_index = idx, camera_feed = VideoCapture (Camera idx),
      fps = 30, frame_duration = 1 / 30\<rparr>"

definition clip_feed :: "string \<Rightarrow> VideoFeed" where
  "clip_feed pth =
     \<lparr>width = 640, height = 480, path = pth, video_feed = VideoCapture (File pth)\<rparr>"

section \<open>Settings serialization\<close>

lemma represent_dict_unsortable: "represent_dict (UnsortableOrderedDict kvs) = kvs"
  by (simp add: represent_dict_def)

lemma represent_dict_plain: "represent_dict (PyDict kvs) = sort_key fst kvs"
  by (simp add: represent_dict_def)

lemma filter_same_key:
  "distinct (map fst xs) \<Longrightarrow> k \<in> set xs \<Longrightarrow> filter (\<lambda>x. fst k = fst x) xs = [k]"
proof (induction xs)
  case Nil
  then show ?case by simp
next
  case (Cons x xs)
  show ?case
  proof (cases "k = x")
    case True
    with Cons.prems have "fst k \<notin> fst ` set xs" by simp
    then have "filter (\<lambda>x. fst k = fst x) xs = []" by (auto simp: filter_empty_conv image_iff)
    with True show ?thesis by simp
  next
    case False
    with Cons.prems have "k \<in> set xs" and "fst k \<noteq> fst x" and "distinct (map fst xs)"
      by (auto simp: rev_image_eqI)
    with Cons.IH show ?thesis by simp
  qed
qed

text \<open>
  The enumeration order of a builtin dict does not matter to the representer: with
  distinct keys, any two enumerations of the same entries give the same document.
\<close>

lemma sort_key_fst_unique:
  fixes xs ys :: "(string \<times> pyval) list"
  assumes "mset xs = mset ys" and "distinct (map fst xs)"
  shows "sort_key fst xs = sort_key fst ys"
proof (rule sym, rule properties_for_sort_key)
  show "mset (sort_key fst xs) = mset ys" using assms by simp
  show "sorted (map fst (sort_key fst xs))" by simp
next
  fix k assume "k \<in> set (sort_key fst xs)"
  then have kx: "k \<in> set xs" by simp
  then have ky: "k \<in> set ys" using assms(1) by (metis mset_eq_setD)
  have "mset (map fst xs) = mset (map fst ys)" using assms(1) by (metis mset_map)
  then have dy: "distinct (map fst ys)"
    using assms(2) by (metis mset_eq_imp_distinct_iff)
  have "distinct (map fst (sort_key fst xs))" using assms(2)
    by (metis distinct_map distinct_sort set_sort)
  then have "filter (\<lambda>x. fst k = fst x) (sort_key fst xs) = [k]"
    using kx by (intro filter_same_key) simp_all
  moreover have "filter (\<lambda>x. fst k = fst x) ys = [k]"
    using dy ky by (rule filter_same_key)
  ultimately show "filter (\<lambda>x. fst k = fst x) (sort_key fst xs) = filter (\<lambda>x. fst k = fst x) ys"
    by simp
qed

lemma represent_dict_enumeration_irrelevant:
  "mset kvs = mset kvs' \<Longrightarrow> distinct (map fst kvs) \<Longrightarrow>
   represent_dict (PyDict kvs) = represent_dict (PyDict kvs')"
  by (simp add: represent_dict_plain sort_key_fst_unique)

lemma parse_answers:
  assumes "stdin t = [a, b, c, d, e, f, g]"
    and "py_int a = Some i" and "py_int b = Some j" and "py_int f = Some k"
    and "config_dir \<in> dirs t"
  shows "fst (parse t) = Inr ()"
    and "documents (snd (parse t)) (config_dir @ ''/profile.yml'') =
           Some (represent_dict (PyDict [(''left-index'', PyInt i), (''right-index'', PyInt j),
                     (''source-dir'', PyStr c), (''dest-dir'', PyStr d),
                     (''key-frame'', PyStr e), (''width'', PyInt k),
                     (''format'', PyStr g)]))"
  using assms
  by (simp_all add: parse_def try_int_input_def raw_input_def print_line_def yaml_dump_def)

text \<open>
  Whatever the seven values are, the profile that \<open>parse\<close> builds as a builtin dict is
  written with its keys in alphabetic order.
\<close>

lemma settings_keys_sorted:
  "map fst (represent_dict (PyDict [(''left-index'', v1), (''right-index'', v2),
                     (''source-dir'', v3), (''dest-dir'', v4),
                     (''key-frame'', v5), (''width'', v6),
                     (''format'', v7)])) =
   [''dest-dir'', ''format'', ''key-frame'', ''left-index'', ''right-index'', ''source-dir'',
    ''width'']"
  by (simp add: represent_dict_def)

text \<open>The same entries in an \<open>UnsortableOrderedDict\<close> keep their insertion order.\<close>

lemma settings_keys_unsortable:
  "map fst (represent_dict (UnsortableOrderedDict [(''left-index'', v1), (''right-index'', v2),
                     (''source-dir'', v3), (''dest-dir'', v4),
                     (''key-frame'', v5), (''width'', v6),
                     (''format'', v7)])) = insertion_order"
  by (simp add: represent_dict_def insertion_order_def)

text \<open>
  C1. Serializing the settings profile should write the keys in the order of insertion,
  left-index, right-index, source-dir, dest-dir, key-frame, width, format. In the session
  where every answer is well formed, \<open>parse\<close> writes the profile with the keys in
  alphabetic order instead, which is not the insertion order.
\<close>

theorem parse_writes_keys_alphabetically:
  "map_option (map fst) (documents (snd (parse good_session)) ''config/profile.yml'') =
     Some [''dest-dir'', ''format'', ''key-frame'', ''left-index'', ''right-index'',
           ''source-dir'', ''width''] \<and>
   [''dest-dir'', ''format'', ''key-frame'', ''left-index'', ''right-index'',
    ''source-dir'', ''width''] \<noteq> insertion_order"
  by (simp add: parse_def good_session_def try_int_input_def raw_input_def print_line_def
      py_int_def strip_def is_space_def digits_val_def is_digit_def yaml_dump_def config_dir_def
      represent_dict_def insertion_order_def)

section \<open>Malformed numbers in the configuration tool\<close>

text \<open>
  With seven answers of which an index or the width is no number, the message is printed
  and every prompt is issued, but building the settings raises on the variable that was
  never assigned: nothing is written.
\<close>

lemma parse_unbound:
  assumes "stdin t = [a, b, c, d, e, f, g]"
    and "py_int a = None \<or> py_int b = None \<or> py_int f = None"
  shows "\<exists>v. fst (parse t) = Inl (UnboundLocalError v)"
    and "documents (snd (parse t)) = documents t"
    and "stdin (snd (parse t)) = []"
    and "''Please enter a number.'' \<in> set (stdout (snd (parse t)))"
  using assms
  by (auto simp add: parse_def try_int_input_def raw_input_def print_line_def yaml_dump_def
      split: option.splits)

text \<open>
  C3. After a non-numeric index or width the tool should print the message, go through the
  remaining prompts without asking again and reach the serialization step. In the session
  whose first answer is \<open>left\<close>, the message is printed and all seven prompts are issued
  once, but the run then ends with an unbound-variable error on \<open>left_index\<close> and no
  profile is written.
\<close>

theorem parse_aborts_after_prompts:
  "fst (parse bad_session) = Inl (UnboundLocalError ''left_index'') \<and>
   stdin (snd (parse bad_session)) = [] \<and>
   stdout (snd (parse bad_session)) =
     [''Enter index of left camera: '', ''Please enter a number.'',
      ''Enter index of right camer: '',
      ''Enter full path to image source directory: '',
      ''Enter full path to image output directory: '',
      ''Enter full path to key frame image: '', ''Enter image width: '',
      ''Enter image format: ''] \<and>
   documents (snd (parse bad_session)) = Map.empty"
  by (simp add: parse_def bad_session_def try_int_input_def raw_input_def print_line_def
      py_int_def strip_def is_space_def digits_val_def is_digit_def)

section \<open>Frames fetched without sleeping\<close>

text \<open>
  A feed whose frame duration does not exceed the overhead constant (the default 30 fps
  feed is one) never sleeps: each fetch moves the handle on by one frame and the clock by
  the processing time.
\<close>

lemma get_next_no_sleep:
  assumes "0 \<le> proc_time p" and "frame_duration self \<le> overhead_constant"
    and "opened (camera_feed self)"
    and "device p (src (camera_feed self)) (position (camera_feed self)) = Some f"
  shows "CameraFeed_get_next p True True self w =
           (Inr (Some (resize p (correct_distortion p f) (width self))), advance 1 self,
            later (proc_time p) w)"
  using assms
  by (simp add: CameraFeed_get_next_def read_def call_correct_distortion_def call_resize_def
      advance_def later_def)

lemma advance_simps:
  "frame_duration (advance n self) = frame_duration self"
  "width (advance n self) = width self"
  "fps (advance n self) = fps self"
  "opened (camera_feed (advance n self)) = opened (camera_feed self)"
  "src (camera_feed (advance n self)) = src (camera_feed self)"
  "position (camera_feed (advance n self)) = position (camera_feed self) + n"
  "advance m (advance n self) = advance (n + m) self"
  "advance 0 self = self"
  by (simp_all add: advance_def add.assoc)

lemma later_simps:
  "clock (later t w) = clock w + t"
  "trace (later t w) = trace w"
  "files (later t w) = files w"
  "later s (later t w) = later (t + s) w"
  "later 0 w = w"
  by (simp_all add: later_def add.assoc)

lemma ramp_loop_no_sleep:
  assumes "0 \<le> proc_time p" and "frame_duration self \<le> overhead_constant"
    and "opened (camera_feed self)"
    and "\<forall>i<n. device p (src (camera_feed self)) (position (camera_feed self) + i) \<noteq> None"
  shows "ramp_loop p n self w = (Inr (), advance n self, later (real n * proc_time p) w)"
  using assms
proof (induction n arbitrary: self w)
  case 0
  then show ?case by (simp add: advance_simps later_simps)
next
  case (Suc n)
  from Suc.prems(4) obtain f where f: "device p (src (camera_feed self)) (position (camera_feed self)) = Some f"
    by (metis add.right_neutral zero_less_Suc not_Some_eq)
  have step: "CameraFeed_get_next p True True self w =
           (Inr (Some (resize p (correct_distortion p f) (width self))), advance 1 self,
            later (proc_time p) w)"
    using Suc.prems(1-3) f by (rule get_next_no_sleep)
  have "\<forall>i<n. device p (src (camera_feed (advance 1 self))) (position (camera_feed (advance 1 self)) + i) \<noteq> None"
    using Suc.prems(4) by (auto simp: advance_simps)
  then have "ramp_loop p n (advance 1 self) (later (proc_time p) w) =
     (Inr (), advance n (advance 1 self), later (real n * proc_time p) (later (proc_time p) w))"
    using Suc.prems(1-3) by (intro Suc.IH) (simp_all add: advance_simps)
  then show ?case
    by (simp add: step advance_simps later_simps algebra_simps)
qed

section \<open>The capture loop\<close>

lemma fed_Nil: "fed fp r writer [] = writer"
  by (simp add: fed_def)

lemma fed_Cons:
  "fed fp r writer (f # fs) =
     fed fp r (Some (writer_write (case writer of
                             None \<Rightarrow> VideoWriter fp ''MJPG'' r (cols f, rows f)
                           | Some wr0 \<Rightarrow> wr0) f)) fs"
  by (simp add: fed_def)

lemma fed_Some: "fed fp r (Some wr) fs = Some (wr\<lparr>written := written wr @ fs\<rparr>)"
proof (induction fs arbitrary: wr)
  case Nil
  show ?case by (simp add: fed_Nil)
next
  case (Cons f fs)
  show ?case by (simp add: fed_Cons Cons.IH writer_write_def)
qed

lemma fed_None:
  "fed fp r None (f # fs) =
     Some \<lparr>target = fp, fourcc = ''MJPG'', rate = r, frame_size = (cols f, rows f),
           written = f # fs\<rparr>"
  by (simp add: fed_Cons fed_Some writer_write_def VideoWriter_def)

lemma rounds_0: "0 < t \<Longrightarrow> rounds x t = 0 \<Longrightarrow> x \<le> 0"
  by (simp add: rounds_def divide_le_0_iff)

lemma rounds_Suc:
  assumes "0 < t" and "rounds x t = Suc n"
  shows "0 < x" and "rounds (x - t) t = n"
proof -
  from assms(2) have c: "\<lceil>x / t\<rceil> = int n + 1" by (simp add: rounds_def)
  then have "0 < x / t" by (simp add: ceiling_eq_iff)
  with assms(1) show "0 < x" by (simp add: zero_less_divide_iff)
  have "(x - t) / t = x / t - 1" using assms(1) by (simp add: diff_divide_distrib)
  then have "\<lceil>(x - t) / t\<rceil> = \<lceil>x / t\<rceil> - 1" by simp
  with c show "rounds (x - t) t = n" by (simp add: rounds_def)
qed

lemma capture_loop_runs:
  assumes pt: "0 < proc_time p"
  shows "frame_duration self \<le> overhead_constant \<Longrightarrow> opened (camera_feed self) \<Longrightarrow>
     src (camera_feed self) = Camera idx \<Longrightarrow> width self = 640 \<Longrightarrow>
     \<forall>i. device p (Camera idx) i \<noteq> None \<Longrightarrow>
     rounds (deadline - clock w) (proc_time p) = n \<Longrightarrow>
     capture_loop p deadline fp r self writer w =
       Some (Inr (advance n self,
                  fed fp r writer
                    (map (processed p idx)
                       [position (camera_feed self)..<position (camera_feed self) + n])),
             later (real n * proc_time p) w)"
proof (induction n arbitrary: self writer w)
  case 0
  from rounds_0 [OF pt "0.prems"(6)] have "\<not> clock w < deadline" by simp
  then show ?case
    by (subst capture_loop.simps) (simp add: advance_simps later_simps fed_Nil)
next
  case (Suc n)
  let ?k = "position (camera_feed self)"
  from rounds_Suc [OF pt Suc.prems(6)]
  have run: "clock w < deadline"
    and rest: "rounds (deadline - clock w - proc_time p) (proc_time p) = n" by simp_all
  from Suc.prems(5) obtain f where f: "device p (Camera idx) ?k = Some f" by auto
  have step: "CameraFeed_get_next p True True self w =
           (Inr (Some (processed p idx ?k)), advance 1 self, later (proc_time p) w)"
    using get_next_no_sleep [of p self f w] pt Suc.prems(1-4) f
    by (simp add: processed_def)
  have rest': "rounds (deadline - clock (later (proc_time p) w)) (proc_time p) = n"
    using rest by (simp add: later_simps algebra_simps)
  have IH: "capture_loop p deadline fp r (advance 1 self) wr' (later (proc_time p) w) =
       Some (Inr (advance n (advance 1 self),
                  fed fp r wr'
                    (map (processed p idx) [Suc ?k..<Suc ?k + n])),
             later (real n * proc_time p) (later (proc_time p) w))" for wr'
    using Suc.IH [of "advance 1 self" "later (proc_time p) w" wr'] Suc.prems(1-5) rest'
    by (simp add: advance_simps)
  let ?wr = "Some (writer_write (case writer of
                             None \<Rightarrow> VideoWriter fp ''MJPG'' r
                               (cols (processed p idx ?k), rows (processed p idx ?k))
                           | Some wr0 \<Rightarrow> wr0) (processed p idx ?k))"
  have unfold: "capture_loop p deadline fp r self writer w =
      capture_loop p deadline fp r (advance 1 self) ?wr (later (proc_time p) w)"
    by (subst capture_loop.simps) (simp add: run step)
  have list: "[?k..<?k + Suc n] = ?k # [Suc ?k..<Suc ?k + n]"
    by (simp add: upt_conv_Cons)
  have w: "later (real n * proc_time p) (later (proc_time p) w) = later (real (Suc n) * proc_time p) w"
    by (simp add: later_simps algebra_simps)
  have a: "advance n (advance 1 self) = advance (Suc n) self"
    by (simp add: advance_simps)
  have fd: "fed fp r ?wr (map (processed p idx) [Suc ?k..<Suc ?k + n]) =
      fed fp r writer (map (processed p idx) [?k..<?k + Suc n])"
    unfolding list by (simp add: fed_Cons)
  show ?case
    unfolding unfold IH w a fd ..
qed

section \<open>Facts about the concrete inputs\<close>

lemma studio_simps:
  "device studio (Camera 0) i = Some (Frame 480 640 i)"
  "device studio (Camera 1) i = None"
  "device studio (File ''clip.avi'') 0 = Some (Frame 720 1280 0)"
  "device studio (File ''clip.avi'') (Suc 0) = Some (Frame 720 1280 1)"
  "device studio (File ''none.avi'') i = None"
  "proc_time studio = 1 / 2"
  "sleep_residual studio = 72906 / 1000000"
  "correct_distortion studio f = f"
  "resize studio f n = Frame (rows f * n div cols f) n (pixels f)"
  "color_text studio s c = s"
  "get_check studio = ''[ok]''"
  "get_xmark studio = ''[x]''"
  "directories studio = {''out/captured_frames'', ''out/captured_videos''}"
  "encoders studio = {''jpg'', ''png''}"
  by (simp_all add: studio_def)

lemma str_int_small: "str_int 0 = ''0''" "str_int 1 = ''1''" "str_int 2 = ''2''" "str_int 5 = ''5''"
  by code_simp+

lemma feed_simps:
  "camera_feed (default_feed i) = VideoCapture (Camera i)"
  "feed_index (default_feed i) = i"
  "width (default_feed i) = 640"
  "fps (default_feed i) = 30"
  "frame_duration (default_feed i) = 1 / 30"
  "video_feed (clip_feed s) = VideoCapture (File s)"
  "path (clip_feed s) = s"
  "width (clip_feed s) = 640"
  by (simp_all add: default_feed_def clip_feed_def)

lemma VideoCapture_simps:
  "opened (VideoCapture s)" "position (VideoCapture s) = 0" "src (VideoCapture s) = s"
  by (simp_all add: VideoCapture_def)

section \<open>Validity probe and frame consumption\<close>

lemma read_fresh:
  "opened c \<Longrightarrow> device p (src c) (position c) = Some f \<Longrightarrow>
   read p c = (Some f, c\<lparr>position := Suc (position c)\<rparr>)"
  by (simp add: read_def)

lemma CameraFeed_get_next_frame:
  assumes "opened (camera_feed self)"
    and "device p (src (camera_feed self)) (position (camera_feed self)) = Some f"
  shows "fst (CameraFeed_get_next p rz cr self w) = Inr (Some (post p rz cr (width self) f))"
  using assms
  by (simp add: CameraFeed_get_next_def read_def call_correct_distortion_def call_resize_def
      post_def Let_def)

lemma VideoFeed_get_next_frame:
  assumes "opened (video_feed self)"
    and "device p (src (video_feed self)) (position (video_feed self)) = Some f"
  shows "fst (VideoFeed_get_next p rz cr self) = Inr (Some (post p rz cr (width self) f))"
  using assms
  by (simp add: VideoFeed_get_next_def read_def call_correct_distortion_def call_resize_def
      post_def Let_def)

text \<open>
  C4. On a feed as constructed, for a source whose first frame is readable \<open>is_valid\<close>
  returns true, releases the device and opens it again, so that the next fetch returns that
  first frame; for a source with no readable frame it returns false and neither releases nor
  reopens. This holds for the camera feed and for the video feed.
\<close>

theorem is_valid_probe:
  assumes cam: "camera_feed cam = VideoCapture (Camera (feed_index cam))"
    and vid: "video_feed vid = VideoCapture (File (path vid))"
  shows
    "(device p (Camera (feed_index cam)) 0 = Some f \<longrightarrow>
        fst (CameraFeed_is_valid p cam w) = True \<and>
        fst (snd (CameraFeed_is_valid p cam w)) = cam \<and>
        trace (snd (snd (CameraFeed_is_valid p cam w))) =
          trace w @ [Printed (''Index '' @ color_text p (str_int (feed_index cam)) ''magenta''
                               @ '' is valid '' @ get_check p),
                     Released (Camera (feed_index cam)), Opened (Camera (feed_index cam))] \<and>
        fst (CameraFeed_get_next p rz cr (fst (snd (CameraFeed_is_valid p cam w)))
               (snd (snd (CameraFeed_is_valid p cam w)))) =
          Inr (Some (post p rz cr (width cam) f))) \<and>
     (device p (Camera (feed_index cam)) 0 = None \<longrightarrow>
        fst (CameraFeed_is_valid p cam w) = False \<and>
        fst (snd (CameraFeed_is_valid p cam w)) = cam \<and>
        trace (snd (snd (CameraFeed_is_valid p cam w))) =
          trace w @ [Printed (''Index '' @ color_text p (str_int (feed_index cam)) ''magenta''
                               @ '' is invalid '' @ get_xmark p)]) \<and>
     (device p (File (path vid)) 0 = Some g \<longrightarrow>
        fst (VideoFeed_is_valid p vid w) = True \<and>
        fst (snd (VideoFeed_is_valid p vid w)) = vid \<and>
        trace (snd (snd (VideoFeed_is_valid p vid w))) =
          trace w @ [Stderr (''Video file '' @ color_text p (path vid) ''magenta''
                               @ '' is valid '' @ get_check p),
                     Released (File (path vid)), Opened (File (path vid))] \<and>
        fst (VideoFeed_get_next p rz cr (fst (snd (VideoFeed_is_valid p vid w)))) =
          Inr (Some (post p rz cr (width vid) g))) \<and>
     (device p (File (path vid)) 0 = None \<longrightarrow>
        fst (VideoFeed_is_valid p vid w) = False \<and>
        fst (snd (VideoFeed_is_valid p vid w)) = vid \<and>
        trace (snd (snd (VideoFeed_is_valid p vid w))) =
          trace w @ [Stderr (''Video file '' @ color_text p (path vid) ''magenta''
                               @ '' is invalid '' @ get_xmark p)])"
proof -
  have c0: "opened (camera_feed cam)" "position (camera_feed cam) = 0"
    "src (camera_feed cam) = Camera (feed_index cam)"
    by (simp_all add: cam VideoCapture_def)
  have v0: "opened (video_feed vid)" "position (video_feed vid) = 0"
    "src (video_feed vid) = File (path vid)"
    by (simp_all add: vid VideoCapture_def)
  have cam_same: "cam\<lparr>camera_feed := VideoCapture (Camera (feed_index cam))\<rparr> = cam"
    using cam by (metis CameraFeed.surjective CameraFeed.update_convs(2) CameraFeed.select_convs(2))
  have vid_same: "vid\<lparr>video_feed := VideoCapture (File (path vid))\<rparr> = vid"
    using vid by (metis VideoFeed.surjective VideoFeed.update_convs(2) VideoFeed.select_convs(2))
  have cam_keep: "cam\<lparr>camera_feed := camera_feed cam\<rparr> = cam" by simp
  have vid_keep: "vid\<lparr>video_feed := video_feed vid\<rparr> = vid" by simp
  have 1: "device p (Camera (feed_index cam)) 0 = Some f \<Longrightarrow>
      CameraFeed_is_valid p cam w =
        (True, cam, w\<lparr>trace := trace w @ [Printed (''Index '' @ color_text p (str_int (feed_index cam)) ''magenta''
                               @ '' is valid '' @ get_check p),
                     Released (Camera (feed_index cam)), Opened (Camera (feed_index cam))]\<rparr>)"
    using c0 by (simp add: CameraFeed_is_valid_def grab_def release_def emit_def Let_def cam_same)
  have 2: "device p (Camera (feed_index cam)) 0 = None \<Longrightarrow>
      CameraFeed_is_valid p cam w =
        (False, cam, w\<lparr>trace := trace w @ [Printed (''Index '' @ color_text p (str_int (feed_index cam)) ''magenta''
                               @ '' is invalid '' @ get_xmark p)]\<rparr>)"
    using c0 by (simp add: CameraFeed_is_valid_def grab_def release_def emit_def Let_def)
  have 3: "device p (File (path vid)) 0 = Some g \<Longrightarrow>
      VideoFeed_is_valid p vid w =
        (True, vid, w\<lparr>trace := trace w @ [Stderr (''Video file '' @ color_text p (path vid) ''magenta''
                               @ '' is valid '' @ get_check p),
                     Released (File (path vid)), Opened (File (path vid))]\<rparr>)"
    using v0 by (simp add: VideoFeed_is_valid_def grab_def release_def emit_def Let_def vid_same)
  have 4: "device p (File (path vid)) 0 = None \<Longrightarrow>
      VideoFeed_is_valid p vid w =
        (False, vid, w\<lparr>trace := trace w @ [Stderr (''Video file '' @ color_text p (path vid) ''magenta''
                               @ '' is invalid '' @ get_xmark p)]\<rparr>)"
    using v0 by (simp add: VideoFeed_is_valid_def grab_def release_def emit_def Let_def)
  have 5: "device p (Camera (feed_index cam)) 0 = Some f \<Longrightarrow>
      fst (CameraFeed_get_next p rz cr cam w2) = Inr (Some (post p rz cr (width cam) f))" for w2
    using CameraFeed_get_next_frame [of cam p f rz cr w2] c0 by simp
  have 6: "device p (File (path vid)) 0 = Some g \<Longrightarrow>
      fst (VideoFeed_get_next p rz cr vid) = Inr (Some (post p rz cr (width vid) g))"
    using VideoFeed_get_next_frame [of vid p g rz cr] v0 by simp
  show ?thesis
    using 1 2 3 4 5 6 by simp
qed

theorem is_valid_probe_witness:
  "camera_feed (default_feed 0) = VideoCapture (Camera (feed_index (default_feed 0))) \<and>
   video_feed (clip_feed ''clip.avi'') = VideoCapture (File (path (clip_feed ''clip.avi''))) \<and>
   device studio (Camera 0) 0 = Some (Frame 480 640 0) \<and>
   fst (CameraFeed_is_valid studio (default_feed 0) boot) = True \<and>
   trace (snd (snd (CameraFeed_is_valid studio (default_feed 0) boot))) =
     [Printed ''Index 0 is valid [ok]'', Released (Camera 0), Opened (Camera 0)] \<and>
   fst (CameraFeed_get_next studio False False
          (fst (snd (CameraFeed_is_valid studio (default_feed 0) boot)))
          (snd (snd (CameraFeed_is_valid studio (default_feed 0) boot)))) =
     Inr (Some (Frame 480 640 0)) \<and>
   device studio (Camera 1) 0 = None \<and>
   fst (CameraFeed_is_valid studio (default_feed 1) boot) = False \<and>
   trace (snd (snd (CameraFeed_is_valid studio (default_feed 1) boot))) =
     [Printed ''Index 1 is invalid [x]''] \<and>
   device studio (File ''clip.avi'') 0 = Some (Frame 720 1280 0) \<and>
   fst (VideoFeed_is_valid studio (clip_feed ''clip.avi'') boot) = True \<and>
   trace (snd (snd (VideoFeed_is_valid studio (clip_feed ''clip.avi'') boot))) =
     [Stderr ''Video file clip.avi is valid [ok]'', Released (File ''clip.avi''),
      Opened (File ''clip.avi'')] \<and>
   fst (VideoFeed_get_next studio False False
          (fst (snd (VideoFeed_is_valid studio (clip_feed ''clip.avi'') boot)))) =
     Inr (Some (Frame 720 1280 0)) \<and>
   device studio (File ''none.avi'') 0 = None \<and>
   fst (VideoFeed_is_valid studio (clip_feed ''none.avi'') boot) = False \<and>
   trace (snd (snd (VideoFeed_is_valid studio (clip_feed ''none.avi'') boot))) =
     [Stderr ''Video file none.avi is invalid [x]'']"
  using is_valid_probe [where cam = "default_feed 0" and vid = "clip_feed ''clip.avi''"
      and p = studio and f = "Frame 480 640 0" and g = "Frame 720 1280 0" and w = boot
      and rz = False and cr = False]
    is_valid_probe [where cam = "default_feed 1" and vid = "clip_feed ''none.avi''"
      and p = studio and w = boot]
  by (auto simp add: studio_simps feed_simps str_int_small post_def boot_def)

text \<open>
  C9. \<open>has_next\<close> grabs a frame: with frames \<open>f1\<close> and \<open>f2\<close> next in the source,
  \<open>has_next\<close> returns true, moves the handle past \<open>f1\<close>, and the following
  \<open>get_next\<close> returns \<open>f2\<close> (corrected and resized as asked). This holds for the
  camera feed and for the video feed.
\<close>

theorem has_next_consumes_frame:
  assumes "opened (camera_feed cam)"
    and "device p (src (camera_feed cam)) (position (camera_feed cam)) = Some f1"
    and "device p (src (camera_feed cam)) (Suc (position (camera_feed cam))) = Some f2"
    and "opened (video_feed vid)"
    and "device p (src (video_feed vid)) (position (video_feed vid)) = Some g1"
    and "device p (src (video_feed vid)) (Suc (position (video_feed vid))) = Some g2"
  shows
    "fst (CameraFeed_has_next p cam) = True \<and>
     position (camera_feed (snd (CameraFeed_has_next p cam))) = Suc (position (camera_feed cam)) \<and>
     fst (CameraFeed_get_next p rz cr (snd (CameraFeed_has_next p cam)) w) =
       Inr (Some (post p rz cr (width cam) f2)) \<and>
     fst (CameraFeed_get_next p False False (snd (CameraFeed_has_next p cam)) w) = Inr (Some f2) \<and>
     fst (VideoFeed_has_next p vid) = True \<and>
     position (video_feed (snd (VideoFeed_has_next p vid))) = Suc (position (video_feed vid)) \<and>
     fst (VideoFeed_get_next p rz cr (snd (VideoFeed_has_next p vid))) =
       Inr (Some (post p rz cr (width vid) g2)) \<and>
     fst (VideoFeed_get_next p False False (snd (VideoFeed_has_next p vid))) = Inr (Some g2)"
proof -
  have c: "CameraFeed_has_next p cam =
      (True, cam\<lparr>camera_feed := (camera_feed cam)\<lparr>position := Suc (position (camera_feed cam))\<rparr>\<rparr>)"
    using assms(1,2) by (simp add: CameraFeed_has_next_def grab_def)
  have v: "VideoFeed_has_next p vid =
      (True, vid\<lparr>video_feed := (video_feed vid)\<lparr>position := Suc (position (video_feed vid))\<rparr>\<rparr>)"
    using assms(4,5) by (simp add: VideoFeed_has_next_def grab_def)
  have cn: "fst (CameraFeed_get_next p a b (snd (CameraFeed_has_next p cam)) w) =
       Inr (Some (post p a b (width cam) f2))" for a b
    using CameraFeed_get_next_frame [of "snd (CameraFeed_has_next p cam)" p f2 a b w] assms(1,3)
    by (simp add: c)
  have vn: "fst (VideoFeed_get_next p a b (snd (VideoFeed_has_next p vid))) =
       Inr (Some (post p a b (width vid) g2))" for a b
    using VideoFeed_get_next_frame [of "snd (VideoFeed_has_next p vid)" p g2 a b] assms(4,6)
    by (simp add: v)
  show ?thesis
    using cn [of rz cr] cn [of False False] vn [of rz cr] vn [of False False]
    by (simp add: c v post_def)
qed

theorem has_next_consumes_frame_witness:
  "opened (camera_feed (default_feed 0)) \<and>
   device studio (src (camera_feed (default_feed 0))) (position (camera_feed (default_feed 0))) =
     Some (Frame 480 640 0) \<and>
   device studio (src (camera_feed (default_feed 0)))
     (Suc (position (camera_feed (default_feed 0)))) = Some (Frame 480 640 1) \<and>
   opened (video_feed (clip_feed ''clip.avi'')) \<and>
   device studio (src (video_feed (clip_feed ''clip.avi'')))
     (position (video_feed (clip_feed ''clip.avi''))) = Some (Frame 720 1280 0) \<and>
   device studio (src (video_feed (clip_feed ''clip.avi'')))
     (Suc (position (video_feed (clip_feed ''clip.avi'')))) = Some (Frame 720 1280 1) \<and>
   fst (CameraFeed_has_next studio (default_feed 0)) = True \<and>
   fst (CameraFeed_get_next studio False False (snd (CameraFeed_has_next studio (default_feed 0)))
          boot) = Inr (Some (Frame 480 640 1)) \<and>
   fst (VideoFeed_has_next studio (clip_feed ''clip.avi'')) = True \<and>
   fst (VideoFeed_get_next studio False False
          (snd (VideoFeed_has_next studio (clip_feed ''clip.avi'')))) =
     Inr (Some (Frame 720 1280 1))"
  using has_next_consumes_frame [where cam = "default_feed 0" and vid = "clip_feed ''clip.avi''"
      and p = studio and ?f1.0 = "Frame 480 640 0" and ?f2.0 = "Frame 480 640 1"
      and ?g1.0 = "Frame 720 1280 0" and ?g2.0 = "Frame 720 1280 1" and w = boot
      and rz = False and cr = False]
  by (simp add: studio_simps feed_simps VideoCapture_simps post_def)

section \<open>Timestamped file names\<close>

lemma digit_char_is_digit: "n < 10 \<Longrightarrow> is_digit (digit_char n)"
proof -
  assume "n < 10"
  then have "n \<in> {0,1,2,3,4,5,6,7,8,9}" by auto
  then show ?thesis
    by (auto simp: is_digit_def digit_char_def)
qed

lemma str_nat_1: "n < 10 \<Longrightarrow> str_nat n = [digit_char n]"
  by (subst str_nat.simps) simp

lemma str_nat_2: "10 \<le> n \<Longrightarrow> n < 100 \<Longrightarrow> str_nat n = [digit_char (n div 10), digit_char (n mod 10)]"
  by (subst str_nat.simps) (simp add: str_nat_1)

lemma str_nat_3:
  "100 \<le> n \<Longrightarrow> n < 1000 \<Longrightarrow>
   str_nat n = [digit_char (n div 100), digit_char (n div 10 mod 10), digit_char (n mod 10)]"
  by (subst str_nat.simps) (simp add: str_nat_2 div_mult2_eq [symmetric])

lemma str_nat_4:
  "1000 \<le> n \<Longrightarrow> n < 10000 \<Longrightarrow>
   str_nat n = [digit_char (n div 1000), digit_char (n div 100 mod 10),
                digit_char (n div 10 mod 10), digit_char (n mod 10)]"
  by (subst str_nat.simps) (simp add: str_nat_3 div_mult2_eq [symmetric])

lemma zero_pad_2:
  "n < 100 \<Longrightarrow> zero_pad 2 (str_nat n) = [digit_char (n div 10), digit_char (n mod 10)]"
proof (cases "n < 10")
  case True
  then show ?thesis by (simp add: str_nat_1 zero_pad_def digit_char_def)
next
  case False
  assume "n < 100"
  with False show ?thesis by (simp add: str_nat_2 zero_pad_def)
qed

lemma strftime_valid:
  assumes "valid_datetime d"
  shows "strftime d =
     [digit_char (year d div 1000), digit_char (year d div 100 mod 10),
      digit_char (year d div 10 mod 10), digit_char (year d mod 10), CHR ''-'',
      digit_char (month d div 10), digit_char (month d mod 10), CHR ''-'',
      digit_char (day d div 10), digit_char (day d mod 10), CHR ''-'',
      digit_char (hour d div 10), digit_char (hour d mod 10), CHR ''-'',
      digit_char (minute d div 10), digit_char (minute d mod 10), CHR ''-'',
      digit_char (second d div 10), digit_char (second d mod 10)]"
  using assms by (simp add: strftime_def valid_datetime_def str_nat_4 zero_pad_2)

lemma strftime_shape: "valid_datetime d \<Longrightarrow> stamp_shape (strftime d)"
  by (simp add: strftime_valid stamp_shape_def upt_rec digit_char_is_digit valid_datetime_def
      less_mult_imp_div_less)

lemma strftime_same_second: "same_second a b \<Longrightarrow> strftime a = strftime b"
  by (simp add: strftime_def same_second_def)

lemma digit_char_not_sep: "n < 10 \<Longrightarrow> CHR ''/'' \<noteq> digit_char n \<and> CHR ''.'' \<noteq> digit_char n"
proof -
  assume "n < 10"
  then have "n \<in> {0,1,2,3,4,5,6,7,8,9}" by auto
  then show ?thesis
    by (auto simp: digit_char_def)
qed

lemma strftime_length: "valid_datetime d \<Longrightarrow> length (strftime d) = 19"
  by (simp add: strftime_valid)


lemma create_filepath_eq:
  "create_filepath p folder ext w = folder @ ''/'' @ strftime (local_time p (clock w)) @ ''.'' @ ext"
  by (simp add: create_filepath_def os_path_sep_def)

lemma studio_local_time:
  "local_time studio t =
     \<lparr>year = 2026, month = 11, day = 5, hour = 23, minute = 51,
      second = nat \<lfloor>t\<rfloor> mod 60, microsecond = nat \<lfloor>frac t * 1000000\<rfloor>\<rparr>"
  by (simp add: studio_def)

lemma boot_simps: "clock boot = 0" "trace boot = []" "files boot = Map.empty"
  by (simp_all add: boot_def)

lemma studio_stamp:
  "s < 60 \<Longrightarrow> \<lfloor>t\<rfloor> = int s \<Longrightarrow>
   strftime (local_time studio t) =
     ''2026-11-05-23-51-'' @ [digit_char (s div 10), digit_char (s mod 10)]"
  by (simp add: studio_local_time strftime_def str_nat_4 zero_pad_2 digit_char_def)

text \<open>
  C8. Two calls of \<open>create_filepath\<close> whose clock readings fall into the same local
  second, with the same folder and extension, return the same path: the folder, a
  separator, the timestamp, a dot and the extension; for a calendar reading with a
  four-digit year the timestamp has the shape \<open>YYYY-MM-DD-HH-MM-SS\<close>.
\<close>

theorem create_filepath_same_second:
  assumes "same_second (local_time p (clock w1)) (local_time p (clock w2))"
  shows "create_filepath p folder ext w1 = create_filepath p folder ext w2 \<and>
         create_filepath p folder ext w1 =
           folder @ ''/'' @ strftime (local_time p (clock w1)) @ ''.'' @ ext \<and>
         (valid_datetime (local_time p (clock w1)) \<longrightarrow>
            stamp_shape (strftime (local_time p (clock w1))))"
proof (intro conjI impI)
  show "create_filepath p folder ext w1 = create_filepath p folder ext w2"
    by (simp add: create_filepath_eq strftime_same_second [OF assms])
  show "create_filepath p folder ext w1 =
      folder @ ''/'' @ strftime (local_time p (clock w1)) @ ''.'' @ ext"
    by (rule create_filepath_eq)
  show "stamp_shape (strftime (local_time p (clock w1)))"
    if "valid_datetime (local_time p (clock w1))"
    using that by (rule strftime_shape)
qed

theorem create_filepath_same_second_witness:
  "same_second (local_time studio (clock (later (29 / 4) boot)))
     (local_time studio (clock (later (31 / 4) boot))) \<and>
   microsecond (local_time studio (clock (later (29 / 4) boot))) = 250000 \<and>
   microsecond (local_time studio (clock (later (31 / 4) boot))) = 750000 \<and>
   valid_datetime (local_time studio (clock (later (29 / 4) boot))) \<and>
   create_filepath studio ''out/captured_frames'' ''jpg'' (later (29 / 4) boot) =
     ''out/captured_frames/2026-11-05-23-51-07.jpg'' \<and>
   create_filepath studio ''out/captured_frames'' ''jpg'' (later (31 / 4) boot) =
     ''out/captured_frames/2026-11-05-23-51-07.jpg'' \<and>
   stamp_shape ''2026-11-05-23-51-07''"
proof -
  have a: "\<lfloor>29 / 4 :: real\<rfloor> = 7" "\<lfloor>31 / 4 :: real\<rfloor> = 7" by simp_all
  have s: "same_second (local_time studio (clock (later (29 / 4) boot)))
     (local_time studio (clock (later (31 / 4) boot)))"
    by (simp add: same_second_def studio_local_time later_simps boot_simps)
  have m: "microsecond (local_time studio (clock (later (29 / 4) boot))) = 250000"
    "microsecond (local_time studio (clock (later (31 / 4) boot))) = 750000"
    by (simp_all add: studio_local_time later_simps boot_simps frac_def)
  have v: "valid_datetime (local_time studio (clock (later (29 / 4) boot)))"
    by (simp add: valid_datetime_def studio_local_time later_simps boot_simps)
  have st: "strftime (local_time studio (clock (later (29 / 4) boot))) = ''2026-11-05-23-51-07''"
    using studio_stamp [of 7 "29 / 4"] by (simp add: later_simps boot_simps digit_char_def)
  show ?thesis
    using create_filepath_same_second [OF s, of "''out/captured_frames''" "''jpg''"] s m v
    by (auto simp add: st)
qed

section \<open>Single-frame capture\<close>

lemma default_feed_init:
  "CameraFeed_init idx 640 480 30 w = (Inr (default_feed idx), emit (Opened (Camera idx)) w)"
  by (simp add: CameraFeed_init_def default_feed_def)

lemma default_feed_short: "frame_duration (default_feed idx) \<le> overhead_constant"
  by (simp add: default_feed_def overhead_constant_def)

lemma emit_simps:
  "clock (emit e w) = clock w" "trace (emit e w) = trace w @ [e]" "files (emit e w) = files w"
  "later t (emit e w) = emit e (later t w)"
  by (simp_all add: emit_def later_def)

lemma takeWhile_until: "x \<notin> set ys \<Longrightarrow> takeWhile (\<lambda>c. c \<noteq> x) (ys @ x # zs) = ys"
  by (induction ys) auto

lemma dropWhile_until: "x \<notin> set ys \<Longrightarrow> dropWhile (\<lambda>c. c \<noteq> x) (ys @ x # zs) = x # zs"
  by (induction ys) auto

lemma basename_path:
  assumes "CHR ''/'' \<notin> set stamp" and "CHR ''.'' \<notin> set ext" and "CHR ''/'' \<notin> set ext"
  shows "basename (folder @ ''/'' @ stamp @ ''.'' @ ext) = stamp"
proof -
  let ?name = "rev ext @ ''.'' @ rev stamp"
  have r: "rev (folder @ ''/'' @ stamp @ ''.'' @ ext) = ?name @ CHR ''/'' # rev folder"
    by simp
  have "CHR ''/'' \<notin> set ?name" using assms(1,3) by simp
  then have 1: "takeWhile (\<lambda>c. c \<noteq> CHR ''/'') (?name @ CHR ''/'' # rev folder) = ?name"
    by (rule takeWhile_until)
  have n: "rev ?name = stamp @ CHR ''.'' # ext" by simp
  have "CHR ''.'' \<notin> set (rev ext)" using assms(2) by simp
  then have 2: "dropWhile (\<lambda>c. c \<noteq> CHR ''.'') (rev ext @ CHR ''.'' # rev stamp) = CHR ''.'' # rev stamp"
    by (rule dropWhile_until)
  have "rev (stamp @ CHR ''.'' # ext) = rev ext @ CHR ''.'' # rev stamp" by simp
  then show ?thesis
    unfolding basename_def Let_def r 1 n by (simp only: 2 list.sel rev_rev_ident)
qed

lemma strftime_no_slash: "valid_datetime d \<Longrightarrow> CHR ''/'' \<notin> set (strftime d)"
  by (simp add: strftime_valid digit_char_not_sep valid_datetime_def less_mult_imp_div_less)

lemma dirname_path:
  assumes "CHR ''/'' \<notin> set name"
  shows "dirname (folder @ ''/'' @ name) = folder"
proof -
  have r: "rev (folder @ ''/'' @ name) = rev name @ CHR ''/'' # rev folder" by simp
  have "CHR ''/'' \<notin> set (rev name)" using assms by simp
  then have d: "dropWhile (\<lambda>c. c \<noteq> CHR ''/'') (rev name @ CHR ''/'' # rev folder) =
      CHR ''/'' # rev folder"
    by (rule dropWhile_until)
  show ?thesis
    unfolding dirname_def r d by simp
qed

lemma extension_path:
  assumes "CHR ''.'' \<notin> set ext"
  shows "extension (pre @ ''.'' @ ext) = ext"
proof -
  have r: "rev (pre @ ''.'' @ ext) = rev ext @ CHR ''.'' # rev pre" by simp
  have "CHR ''.'' \<notin> set (rev ext)" using assms by simp
  then have t: "takeWhile (\<lambda>c. c \<noteq> CHR ''.'') (rev ext @ CHR ''.'' # rev pre) = rev ext"
    by (rule takeWhile_until)
  show ?thesis
    unfolding extension_def r t by simp
qed

text \<open>
  What \<open>imwrite\<close> does with a timestamped path: it writes when the folder exists and
  returns false, leaving the disk as it is, when the folder is missing.
\<close>

lemma imwrite_stamped:
  assumes "valid_datetime d" and "filetype \<in> encoders p"
    and "CHR ''/'' \<notin> set filetype" and "CHR ''.'' \<notin> set filetype"
  shows "imwrite p (folder @ ''/'' @ strftime d @ ''.'' @ filetype) (Some f) w =
      (if folder \<in> directories p
       then Inr (True, w\<lparr>files := (files w)(folder @ ''/'' @ strftime d @ ''.'' @ filetype
                                           \<mapsto> Image f)\<rparr>)
       else Inr (False, w))"
proof -
  let ?fp = "folder @ ''/'' @ strftime d @ ''.'' @ filetype"
  have "CHR ''/'' \<notin> set (strftime d @ ''.'' @ filetype)"
    using assms(1,3) by (simp add: strftime_no_slash)
  then have dir: "dirname ?fp = folder" by (rule dirname_path)
  have "extension ((folder @ ''/'' @ strftime d) @ ''.'' @ filetype) = filetype"
    using assms(4) by (rule extension_path)
  then have ext: "extension ?fp = filetype" by simp
  have dot: "CHR ''.'' \<in> set ?fp" by simp
  show ?thesis
    unfolding imwrite_def option.case dir ext using dot assms(2) by simp
qed

lemma capture_single_frame_fetch:
  assumes "0 \<le> proc_time p" and "\<forall>i\<le>30. device p (Camera idx) i \<noteq> None"
  shows "capture_single_frame p idx output_dir filetype w =
      (case imwrite p (create_filepath p output_dir filetype (later (31 * proc_time p) w))
              (Some (processed p idx 30))
              (emit (Opened (Camera idx)) (later (31 * proc_time p) w)) of
         Inl e \<Rightarrow> (Inl e, emit (Opened (Camera idx)) (later (31 * proc_time p) w))
       | Inr (_, w4) \<Rightarrow>
           (Inr (), snd (CameraFeed_close (advance 31 (default_feed idx))
                           (print_info ''Frame was captured.'' w4))))"
proof -
  let ?w1 = "emit (Opened (Camera idx)) w"
  let ?f1 = "advance 30 (default_feed idx)"
  let ?w2 = "later (30 * proc_time p) ?w1"
  have r: "ramp p 30 (default_feed idx) ?w1 = (Inr (), ?f1, ?w2)"
    unfolding ramp_def
    using ramp_loop_no_sleep [of p "default_feed idx" 30 ?w1] assms
    by (simp add: overhead_constant_def feed_simps VideoCapture_simps)
  from assms(2) obtain f where f: "device p (Camera idx) 30 = Some f" by auto
  have g: "CameraFeed_get_next p True True ?f1 ?w2 =
      (Inr (Some (processed p idx 30)), advance 1 ?f1, later (proc_time p) ?w2)"
    using get_next_no_sleep [of p ?f1 f ?w2] assms(1) f
    by (simp add: advance_simps overhead_constant_def feed_simps VideoCapture_simps processed_def)
  have w3: "later (proc_time p) ?w2 = emit (Opened (Camera idx)) (later (31 * proc_time p) w)"
    by (simp add: later_simps emit_simps)
  have fp: "create_filepath p output_dir filetype (emit (Opened (Camera idx)) (later (31 * proc_time p) w))
     = create_filepath p output_dir filetype (later (31 * proc_time p) w)"
    by (simp add: create_filepath_def emit_simps)
  have a: "advance 1 ?f1 = advance 31 (default_feed idx)" by (simp add: advance_simps)
  have "capture_single_frame p idx output_dir filetype w =
      (let filepath = create_filepath p output_dir filetype (later (proc_time p) ?w2) in
       case imwrite p filepath (Some (processed p idx 30)) (later (proc_time p) ?w2) of
         Inl e \<Rightarrow> (Inl e, later (proc_time p) ?w2)
       | Inr (_, w4) \<Rightarrow>
           (let w5 = print_info ''Frame was captured.'' w4
            in (Inr (), snd (CameraFeed_close (advance 1 ?f1) w5))))"
    by (simp only: capture_single_frame_def default_feed_init r g prod.case sum.case)
  then show ?thesis
    unfolding w3 fp a Let_def .
qed

lemma capture_single_frame_runs:
  assumes "0 \<le> proc_time p" and "\<forall>i\<le>30. device p (Camera idx) i \<noteq> None"
    and "valid_datetime (local_time p (clock w + 31 * proc_time p))"
    and "output_dir \<in> directories p" and "filetype \<in> encoders p"
    and "CHR ''/'' \<notin> set filetype" and "CHR ''.'' \<notin> set filetype"
  shows "capture_single_frame p idx output_dir filetype w =
     (Inr (),
      \<lparr>clock = clock w + 31 * proc_time p,
       trace = trace w @ [Opened (Camera idx), Info ''Frame was captured.'', Released (Camera idx)],
       files = (files w)(create_filepath p output_dir filetype (later (31 * proc_time p) w) \<mapsto>
                  Image (processed p idx 30))\<rparr>)"
proof -
  have fp: "create_filepath p output_dir filetype (later (31 * proc_time p) w) =
      output_dir @ ''/'' @ strftime (local_time p (clock w + 31 * proc_time p)) @ ''.'' @ filetype"
    by (simp add: create_filepath_eq later_simps)
  show ?thesis
    unfolding capture_single_frame_fetch [OF assms(1,2)] fp
      imwrite_stamped [OF assms(3,5,6,7)]
    using assms(4)
    by (simp add: print_info_def CameraFeed_close_def release_def
        emit_def later_def advance_def feed_simps VideoCapture_simps)
qed

text \<open>
  With the output directory missing the capture still returns normally and prints its
  message, and no file is written.
\<close>

lemma capture_single_frame_no_directory:
  assumes "0 \<le> proc_time p" and "\<forall>i\<le>30. device p (Camera idx) i \<noteq> None"
    and "valid_datetime (local_time p (clock w + 31 * proc_time p))"
    and "output_dir \<notin> directories p" and "filetype \<in> encoders p"
    and "CHR ''/'' \<notin> set filetype" and "CHR ''.'' \<notin> set filetype"
  shows "capture_single_frame p idx output_dir filetype w =
     (Inr (),
      \<lparr>clock = clock w + 31 * proc_time p,
       trace = trace w @ [Opened (Camera idx), Info ''Frame was captured.'', Released (Camera idx)],
       files = files w\<rparr>)"
proof -
  have fp: "create_filepath p output_dir filetype (later (31 * proc_time p) w) =
      output_dir @ ''/'' @ strftime (local_time p (clock w + 31 * proc_time p)) @ ''.'' @ filetype"
    by (simp add: create_filepath_eq later_simps)
  show ?thesis
    unfolding capture_single_frame_fetch [OF assms(1,2)] fp
      imwrite_stamped [OF assms(3,5,6,7)]
    using assms(4)
    by (simp add: print_info_def CameraFeed_close_def release_def
        emit_def later_def advance_def feed_simps VideoCapture_simps)
qed

lemma studio_frames: "\<forall>i\<le>30. device studio (Camera 0) i \<noteq> None"
  by (simp add: studio_simps)

lemma studio_stamp_15:
  "strftime (local_time studio (31 / 2)) = ''2026-11-05-23-51-15''"
  using studio_stamp [of 15 "31 / 2"] by (simp add: digit_char_def)

lemma studio_valid_15: "valid_datetime (local_time studio (clock boot + 31 * proc_time studio))"
  by (simp add: valid_datetime_def studio_local_time studio_simps boot_simps)

lemma studio_frame_run:
  "capture_single_frame studio 0 ''out/captured_frames'' ''jpg'' boot =
     (Inr (),
      \<lparr>clock = 31 / 2,
       trace = [Opened (Camera 0), Info ''Frame was captured.'', Released (Camera 0)],
       files = [''out/captured_frames/2026-11-05-23-51-15.jpg'' \<mapsto> Image (Frame 480 640 30)]\<rparr>)"
proof -
  have a: "0 \<le> proc_time studio" by (simp add: studio_simps)
  have d: "''out/captured_frames'' \<in> directories studio" by (simp add: studio_simps)
  have e: "''jpg'' \<in> encoders studio" by (simp add: studio_simps)
  have n: "CHR ''/'' \<notin> set ''jpg''" "CHR ''.'' \<notin> set ''jpg''" by simp_all
  show ?thesis
    unfolding capture_single_frame_runs [OF a studio_frames studio_valid_15 d e n]
    by (simp add: studio_simps boot_simps create_filepath_eq later_simps studio_stamp_15
        processed_def)
qed

text \<open>
  C7, as stated: the one new file has a basename of 14 characters. On the concrete
  platform the capture writes exactly one new file, and its basename
  \<open>2026-11-05-23-51-15\<close> is not 14 characters long.
\<close>

theorem capture_single_frame_basename_counterexample:
  "fst (capture_single_frame studio 0 ''out/captured_frames'' ''jpg'' boot) = Inr () \<and>
   dom (files (snd (capture_single_frame studio 0 ''out/captured_frames'' ''jpg'' boot)))
     - dom (files boot) = {''out/captured_frames/2026-11-05-23-51-15.jpg''} \<and>
   basename ''out/captured_frames/2026-11-05-23-51-15.jpg'' = ''2026-11-05-23-51-15'' \<and>
   length (basename ''out/captured_frames/2026-11-05-23-51-15.jpg'') \<noteq> 14"
  by (simp add: studio_frame_run boot_simps basename_def)

text \<open>
  C7, amended. Single-frame capture with output directory \<open>out/captured_frames\<close> and file
  type \<open>jpg\<close>, where that directory exists and the library can encode \<open>jpg\<close>, on a
  camera that delivers the 30 warm-up frames and one more, at a calendar time with a
  four-digit year and with no file of that name present before: the call returns normally
  and exactly one file is new, \<open>out/captured_frames/<stamp>.jpg\<close>, holding the frame
  fetched after the warm-up; its basename is the timestamp, of the shape
  \<open>YYYY-MM-DD-HH-MM-SS\<close> and 19 characters long.
\<close>

theorem capture_single_frame_file:
  assumes "0 \<le> proc_time p" and "\<forall>i\<le>30. device p (Camera idx) i \<noteq> None"
    and "valid_datetime (local_time p (clock w + 31 * proc_time p))"
    and "''out/captured_frames'' \<in> directories p" and "''jpg'' \<in> encoders p"
    and "create_filepath p ''out/captured_frames'' ''jpg'' (later (31 * proc_time p) w)
           \<notin> dom (files w)"
  defines "stamp \<equiv> strftime (local_time p (clock w + 31 * proc_time p))"
  defines "w' \<equiv> snd (capture_single_frame p idx ''out/captured_frames'' ''jpg'' w)"
  shows "fst (capture_single_frame p idx ''out/captured_frames'' ''jpg'' w) = Inr () \<and>
         dom (files w') - dom (files w) = {''out/captured_frames/'' @ stamp @ ''.jpg''} \<and>
         files w' (''out/captured_frames/'' @ stamp @ ''.jpg'') = Some (Image (processed p idx 30)) \<and>
         basename (''out/captured_frames/'' @ stamp @ ''.jpg'') = stamp \<and>
         stamp_shape stamp \<and> length stamp = 19"
proof -
  have fp: "create_filepath p ''out/captured_frames'' ''jpg'' (later (31 * proc_time p) w) =
      ''out/captured_frames/'' @ stamp @ ''.jpg''"
    by (simp add: create_filepath_eq later_simps stamp_def)
  have n: "CHR ''/'' \<notin> set ''jpg''" "CHR ''.'' \<notin> set ''jpg''" by simp_all
  have run: "capture_single_frame p idx ''out/captured_frames'' ''jpg'' w =
     (Inr (),
      \<lparr>clock = clock w + 31 * proc_time p,
       trace = trace w @ [Opened (Camera idx), Info ''Frame was captured.'', Released (Camera idx)],
       files = (files w)(''out/captured_frames/'' @ stamp @ ''.jpg'' \<mapsto>
                  Image (processed p idx 30))\<rparr>)"
    using capture_single_frame_runs [OF assms(1,2,3,4,5) n]
    unfolding fp .
  have new: "''out/captured_frames/'' @ stamp @ ''.jpg'' \<notin> dom (files w)"
    using assms(6) unfolding fp .
  have b: "basename (''out/captured_frames'' @ ''/'' @ stamp @ ''.'' @ ''jpg'') = stamp"
    by (rule basename_path) (simp_all add: stamp_def strftime_no_slash assms(3))
  have sh: "stamp_shape stamp" "length stamp = 19"
    by (simp_all add: stamp_def strftime_shape strftime_length assms(3))
  show ?thesis
    using new b sh by (auto simp: w'_def run)
qed

theorem capture_single_frame_file_witness:
  "0 \<le> proc_time studio \<and>
   device studio (Camera 0) 30 = Some (Frame 480 640 30) \<and>
   valid_datetime (local_time studio (clock boot + 31 * proc_time studio)) \<and>
   ''out/captured_frames'' \<in> directories studio \<and> ''jpg'' \<in> encoders studio \<and>
   create_filepath studio ''out/captured_frames'' ''jpg'' (later (31 * proc_time studio) boot)
      \<notin> dom (files boot) \<and>
   fst (capture_single_frame studio 0 ''out/captured_frames'' ''jpg'' boot) = Inr () \<and>
   dom (files (snd (capture_single_frame studio 0 ''out/captured_frames'' ''jpg'' boot)))
     - dom (files boot) = {''out/captured_frames/2026-11-05-23-51-15.jpg''} \<and>
   files (snd (capture_single_frame studio 0 ''out/captured_frames'' ''jpg'' boot))
     ''out/captured_frames/2026-11-05-23-51-15.jpg'' = Some (Image (Frame 480 640 30)) \<and>
   basename ''out/captured_frames/2026-11-05-23-51-15.jpg'' = ''2026-11-05-23-51-15'' \<and>
   length ''2026-11-05-23-51-15'' = 19"
proof -
  have a: "0 \<le> proc_time studio" by (simp add: studio_simps)
  have d: "''out/captured_frames'' \<in> directories studio" by (simp add: studio_simps)
  have e: "''jpg'' \<in> encoders studio" by (simp add: studio_simps)
  have n: "create_filepath studio ''out/captured_frames'' ''jpg''
      (later (31 * proc_time studio) boot) \<notin> dom (files boot)"
    by (simp add: boot_simps)
  have st: "strftime (local_time studio (clock boot + 31 * proc_time studio)) = ''2026-11-05-23-51-15''"
    using studio_stamp_15 by (simp add: studio_simps boot_simps)
  show ?thesis
    using capture_single_frame_file [OF a studio_frames studio_valid_15 d e n, unfolded st]
      a studio_valid_15 d e n
    by (simp add: studio_simps processed_def)
qed

section \<open>Dispatch on the command line arguments\<close>

text \<open>
  C5. For the parsed pair of capture type and number of cameras: \<open>frame\<close> with one
  camera runs exactly the single-frame capture with its defaults; \<open>video\<close> with one camera
  runs exactly the video capture with its defaults, duration 5 and 30 fps; every other pair
  only prints one message: nothing else is added to the trace, no file changes and no
  device is opened.
\<close>

theorem main_dispatch:
  "(capture_type = ''frame'' \<and> num_cameras = 1 \<longrightarrow>
      main p (capture_type, num_cameras) w =
        Some (capture_single_frame p 0 ''out/captured_frames'' ''jpg'' w)) \<and>
   (capture_type = ''video'' \<and> num_cameras = 1 \<longrightarrow>
      main p (capture_type, num_cameras) w =
        capture_single_video p 0 5 30 ''out/captured_videos'' ''avi'' w) \<and>
   (\<not> ((capture_type = ''frame'' \<or> capture_type = ''video'') \<and> num_cameras = 1) \<longrightarrow>
      (\<exists>e. is_message e \<and>
           main p (capture_type, num_cameras) w = Some (Inr (), emit e w) \<and>
           trace (emit e w) = trace w @ [e] \<and> files (emit e w) = files w \<and>
           clock (emit e w) = clock w))"
proof (intro conjI impI)
  assume "capture_type = ''frame'' \<and> num_cameras = 1"
  then show "main p (capture_type, num_cameras) w =
      Some (capture_single_frame p 0 ''out/captured_frames'' ''jpg'' w)"
    by (simp add: main_def)
next
  assume "capture_type = ''video'' \<and> num_cameras = 1"
  then show "main p (capture_type, num_cameras) w =
      capture_single_video p 0 5 30 ''out/captured_videos'' ''avi'' w"
    by (simp add: main_def)
next
  assume other: "\<not> ((capture_type = ''frame'' \<or> capture_type = ''video'') \<and> num_cameras = 1)"
  let ?goal = "\<lambda>e. is_message e \<and>
           main p (capture_type, num_cameras) w = Some (Inr (), emit e w) \<and>
           trace (emit e w) = trace w @ [e] \<and> files (emit e w) = files w \<and>
           clock (emit e w) = clock w"
  consider (frames) "capture_type = ''frame''" "num_cameras \<noteq> 1"
    | (videos) "capture_type = ''video''" "num_cameras \<noteq> 1"
    | (neither) "capture_type \<noteq> ''frame''" "capture_type \<noteq> ''video''"
    using other by blast
  then show "\<exists>e. ?goal e"
  proof cases
    case frames
    then have "?goal (Info (''You chose to capture frames for '' @ str_int num_cameras
                              @ '' cameras.''))"
      by (simp add: main_def print_info_def is_message_def emit_simps)
    then show ?thesis ..
  next
    case videos
    then have "?goal (Info (''You chose to capture video for '' @ str_int num_cameras
                              @ '' cameras.''))"
      by (simp add: main_def print_info_def is_message_def emit_simps)
    then show ?thesis ..
  next
    case neither
    then have "?goal (Error ''Please provide a proper capture argument.'')"
      by (simp add: main_def print_error_def is_message_def emit_simps)
    then show ?thesis ..
  qed
qed

theorem main_dispatch_witness:
  "main studio (''frame'', 1) boot =
     Some (capture_single_frame studio 0 ''out/captured_frames'' ''jpg'' boot) \<and>
   main studio (''video'', 1) boot =
     capture_single_video studio 0 5 30 ''out/captured_videos'' ''avi'' boot \<and>
   main studio (''frame'', 2) boot =
     Some (Inr (), emit (Info ''You chose to capture frames for 2 cameras.'') boot) \<and>
   main studio (''video'', 2) boot =
     Some (Inr (), emit (Info ''You chose to capture video for 2 cameras.'') boot) \<and>
   main studio (''movie'', 1) boot =
     Some (Inr (), emit (Error ''Please provide a proper capture argument.'') boot)"
  using main_dispatch [of "''frame''" 1 studio boot] main_dispatch [of "''video''" 1 studio boot]
  by (simp add: main_def Let_def print_info_def print_error_def str_int_small)

section \<open>Timed video capture\<close>

lemma ramp_default_feed:
  assumes "0 \<le> proc_time p" and "\<forall>i<nat r. device p (Camera idx) i \<noteq> None"
  shows "ramp p r (default_feed idx) w =
      (Inr (), advance (nat r) (default_feed idx), later (real (nat r) * proc_time p) w)"
  unfolding ramp_def
  using ramp_loop_no_sleep [of p "default_feed idx" "nat r" w] assms
  by (simp add: overhead_constant_def feed_simps VideoCapture_simps)

lemma capture_loop_done:
  "\<not> clock w < deadline \<Longrightarrow>
   capture_loop p deadline fp r self writer w = Some (Inr (self, writer), w)"
  by (subst capture_loop.simps) simp

text \<open>
  C10. Timed video capture with a duration of zero or less, on a camera that delivers the
  warm-up frames: the loop returns at once with the writer still unset, finalizing the
  unset writer raises, and the call ends with that error while the camera handle is still
  open: the trace holds the opening of the device and no release, and no file is written.
\<close>

theorem capture_single_video_nonpositive_duration:
  fixes w :: world
  assumes "duration \<le> 0" and "0 \<le> proc_time p"
    and "\<forall>i<nat r. device p (Camera idx) i \<noteq> None"
  defines "feed1 \<equiv> advance (nat r) (default_feed idx)"
  defines "w2 \<equiv> later (real (nat r) * proc_time p) (emit (Opened (Camera idx)) w)"
  shows "capture_loop p (clock w2 + real_of_int duration)
           (create_filepath p output_dir filetype w2) r feed1 None w2 =
           Some (Inr (feed1, None), w2) \<and>
         capture_single_video_body p idx duration r output_dir filetype w =
           Some (Inl (AttributeError ''release''), w2) \<and>
         capture_single_video p idx duration r output_dir filetype w =
           Some (Inl (AttributeError ''release''), w2) \<and>
         opened (camera_feed feed1) \<and>
         trace w2 = trace w @ [Opened (Camera idx)] \<and>
         files w2 = files w"
proof -
  have r: "ramp p r (default_feed idx) (emit (Opened (Camera idx)) w) = (Inr (), feed1, w2)"
    unfolding feed1_def w2_def using assms(2,3) by (rule ramp_default_feed)
  have "\<not> clock w2 < clock w2 + real_of_int duration" using assms(1) by simp
  then have l: "capture_loop p (clock w2 + real_of_int duration)
           (create_filepath p output_dir filetype w2) r feed1 None w2 =
           Some (Inr (feed1, None), w2)"
    by (rule capture_loop_done)
  have b: "capture_single_video_body p idx duration r output_dir filetype w =
           Some (Inl (AttributeError ''release''), w2)"
    by (simp add: capture_single_video_body_def default_feed_init r l Let_def)
  have o: "opened (camera_feed feed1)"
    by (simp add: feed1_def advance_simps feed_simps VideoCapture_simps)
  show ?thesis
    using l b o
    by (simp add: capture_single_video_def) (simp add: w2_def later_simps emit_simps)
qed

theorem capture_single_video_nonpositive_duration_witness:
  "(0::int) \<le> 0 \<and> 0 \<le> proc_time studio \<and>
   device studio (Camera 0) 0 \<noteq> None \<and> device studio (Camera 0) 1 \<noteq> None \<and>
   capture_single_video_body studio 0 0 2 ''out/captured_videos'' ''avi'' boot =
     Some (Inl (AttributeError ''release''), later 1 (emit (Opened (Camera 0)) boot)) \<and>
   trace (later 1 (emit (Opened (Camera 0)) boot)) = [Opened (Camera 0)] \<and>
   files (later 1 (emit (Opened (Camera 0)) boot)) = files boot"
proof -
  have a: "(0::int) \<le> 0" by simp
  have b: "0 \<le> proc_time studio" by (simp add: studio_simps)
  have c: "\<forall>i<nat 2. device studio (Camera 0) i \<noteq> None" by (simp add: studio_simps)
  show ?thesis
    using capture_single_video_nonpositive_duration
      [OF a b c, where output_dir = "''out/captured_videos''" and filetype = "''avi''"
        and w = boot] b
    by (simp add: studio_simps boot_simps)
qed

text \<open>
  The normal run: with a camera that always delivers, a positive processing time and a
  positive duration, the loop runs for the least number of rounds that covers the
  duration, and the call returns after releasing the writer and then the camera.
\<close>

lemma rounds_pos: "0 < t \<Longrightarrow> 0 < x \<Longrightarrow> 0 < rounds x t"
  by (simp add: rounds_def)

lemma rounds_enough: "0 < t \<Longrightarrow> 0 < x \<Longrightarrow> x \<le> real (rounds x t) * t"
proof -
  assume t: "0 < t" and x: "0 < x"
  have "x / t \<le> real_of_int \<lceil>x / t\<rceil>" by (rule le_of_int_ceiling)
  also have "\<dots> = real (rounds x t)" using t x by (simp add: rounds_def)
  finally show ?thesis using t by (simp add: pos_divide_le_eq)
qed

lemma rounds_least: "0 < t \<Longrightarrow> 0 < x \<Longrightarrow> real (rounds x t) * t - t < x"
proof -
  assume t: "0 < t" and x: "0 < x"
  have "real_of_int \<lceil>x / t\<rceil> - 1 < x / t" by linarith
  moreover have "real_of_int \<lceil>x / t\<rceil> = real (rounds x t)" using t x by (simp add: rounds_def)
  ultimately have "real (rounds x t) - 1 < x / t" by simp
  then have "(real (rounds x t) - 1) * t < x" using t by (simp add: pos_less_divide_eq)
  then show ?thesis by (simp add: algebra_simps)
qed

lemma capture_single_video_body_normal:
  fixes w :: world and r :: int and output_dir filetype :: string
  assumes pt: "0 < proc_time p" and d: "0 < duration"
    and cam: "\<forall>i. device p (Camera idx) i \<noteq> None"
  defines "start \<equiv> later (real (nat r) * proc_time p) (emit (Opened (Camera idx)) w)"
  defines "n \<equiv> rounds (real_of_int duration) (proc_time p)"
  defines "fp \<equiv> create_filepath p output_dir filetype start"
  defines "wr \<equiv> \<lparr>target = fp, fourcc = ''MJPG'', rate = r,
                  frame_size = (cols (processed p idx (nat r)), rows (processed p idx (nat r))),
                  written = map (processed p idx) [nat r..<nat r + n]\<rparr>"
  shows "capture_single_video_body p idx duration r output_dir filetype w =
     Some (Inr ((advance (nat r + n) (default_feed idx))
                  \<lparr>camera_feed := (camera_feed (advance (nat r + n) (default_feed idx)))
                                     \<lparr>opened := False\<rparr>\<rparr>, wr),
           \<lparr>clock = clock start + real n * proc_time p,
            trace = trace w @ [Opened (Camera idx), WriterReleased fp, Released (Camera idx),
                               Info (''Video was captured for '' @ str_int duration @ '' seconds.'')],
            files = (files w)(fp \<mapsto> Video ''MJPG'' r (frame_size wr) (written wr))\<rparr>)"
proof -
  let ?feed1 = "advance (nat r) (default_feed idx)"
  have r: "ramp p r (default_feed idx) (emit (Opened (Camera idx)) w) = (Inr (), ?feed1, start)"
    unfolding start_def using pt cam by (intro ramp_default_feed) simp_all
  have n: "rounds (clock start + real_of_int duration - clock start) (proc_time p) = n"
    by (simp add: n_def)
  have l0: "capture_loop p (clock start + real_of_int duration) fp r ?feed1 None start =
       Some (Inr (advance n ?feed1,
                  fed fp r None (map (processed p idx) [nat r..<nat r + n])),
             later (real n * proc_time p) start)"
    using capture_loop_runs [OF pt _ _ _ _ cam n, of ?feed1 fp r None]
    by (simp add: advance_simps feed_simps VideoCapture_simps overhead_constant_def)
  have "0 < n" unfolding n_def using pt d by (intro rounds_pos) simp_all
  then have "[nat r..<nat r + n] = nat r # [Suc (nat r)..<nat r + n]"
    by (simp add: upt_conv_Cons)
  then have fed: "fed fp r None (map (processed p idx) [nat r..<nat r + n]) = Some wr"
    by (simp add: fed_None wr_def)
  have l: "capture_loop p (clock start + real_of_int duration) fp r ?feed1 None start =
       Some (Inr (advance (nat r + n) (default_feed idx), Some wr),
             later (real n * proc_time p) start)"
    unfolding l0 fed by (simp add: advance_simps)
  have tr: "trace start = trace w @ [Opened (Camera idx)]" "files start = files w"
    by (simp_all add: start_def later_simps emit_simps)
  have "capture_single_video_body p idx duration r output_dir filetype w =
      (let w4 = writer_release wr (later (real n * proc_time p) start) in
       case CameraFeed_close (advance (nat r + n) (default_feed idx)) w4 of
         (feed3, w5) \<Rightarrow>
           Some (Inr (feed3, wr),
                 print_info (''Video was captured for '' @ str_int duration @ '' seconds.'') w5))"
    by (simp add: capture_single_video_body_def default_feed_init r Let_def fp_def [symmetric] l)
  also have "\<dots> = Some (Inr ((advance (nat r + n) (default_feed idx))
                  \<lparr>camera_feed := (camera_feed (advance (nat r + n) (default_feed idx)))
                                     \<lparr>opened := False\<rparr>\<rparr>, wr),
           \<lparr>clock = clock start + real n * proc_time p,
            trace = trace w @ [Opened (Camera idx), WriterReleased fp, Released (Camera idx),
                               Info (''Video was captured for '' @ str_int duration @ '' seconds.'')],
            files = (files w)(fp \<mapsto> Video ''MJPG'' r (frame_size wr) (written wr))\<rparr>)"
    by (simp add: Let_def writer_release_def CameraFeed_close_def release_def print_info_def
        emit_def later_def tr advance_simps feed_simps VideoCapture_simps)
      (simp add: wr_def)
  finally show ?thesis .
qed

lemma studio_video_run:
  "capture_single_video_body studio 0 1 2 ''out/captured_videos'' ''avi'' boot =
     Some (Inr (\<lparr>width = 640, height = 480, feed_index = 0,
                 camera_feed = \<lparr>src = Camera 0, opened = False, position = 4\<rparr>,
                 fps = 30, frame_duration = 1 / 30\<rparr>,
                \<lparr>target = ''out/captured_videos/2026-11-05-23-51-01.avi'', fourcc = ''MJPG'',
                 rate = 2, frame_size = (640, 480),
                 written = [Frame 480 640 2, Frame 480 640 3]\<rparr>),
           \<lparr>clock = 2,
            trace = [Opened (Camera 0),
                     WriterReleased ''out/captured_videos/2026-11-05-23-51-01.avi'',
                     Released (Camera 0), Info ''Video was captured for 1 seconds.''],
            files = [''out/captured_videos/2026-11-05-23-51-01.avi'' \<mapsto>
                      Video ''MJPG'' 2 (640, 480) [Frame 480 640 2, Frame 480 640 3]]\<rparr>)"
proof -
  have pt: "0 < proc_time studio" by (simp add: studio_simps)
  have cam: "\<forall>i. device studio (Camera 0) i \<noteq> None" by (simp add: studio_simps)
  have n: "rounds (real_of_int 1) (proc_time studio) = 2"
    by (simp add: rounds_def studio_simps)
  have st: "strftime (local_time studio 1) = ''2026-11-05-23-51-01''"
    using studio_stamp [of 1 1] by (simp add: digit_char_def)
  have l: "[2..<4] = [2, 3::nat]" by (simp add: upt_rec)
  have d: "(0::int) < 1" by simp
  show ?thesis
    unfolding capture_single_video_body_normal
      [OF pt d cam, where r = 2 and w = boot
        and output_dir = "''out/captured_videos''" and filetype = "''avi''", unfolded n]
    by (simp add: studio_simps boot_simps create_filepath_eq later_simps emit_simps st
        processed_def advance_def default_feed_def VideoCapture_def str_int_small l)
qed

text \<open>
  C6, as stated: the camera source is opened at the requested fps. On the concrete
  platform a capture requested at 2 fps returns with its feed at 30 fps.
\<close>

theorem capture_single_video_fps_counterexample:
  "map_option (map_sum id (fps \<circ> fst) \<circ> fst)
     (capture_single_video_body studio 0 1 2 ''out/captured_videos'' ''avi'' boot) =
     Some (Inr 30) \<and> (30::int) \<noteq> 2"
  by (simp add: studio_video_run)

text \<open>
  C6, amended. Timed video capture, on a camera that always delivers, with a positive
  processing time and a positive duration: it opens a camera source at the default 30 fps
  whatever fps is requested, ramps it for as many frames as the requested fps, then
  fetches frames and appends them to the writer, in order, until the clock has moved on
  by at least the duration since the end of the ramp, and not one round longer; the
  writer takes its size from the first captured frame and the requested fps as its rate;
  at the end the writer is released and then the camera, in that order.
\<close>

theorem capture_single_video_runs:
  fixes w :: world and r :: int and output_dir filetype :: string
  assumes pt: "0 < proc_time p" and d: "0 < duration"
    and cam: "\<forall>i. device p (Camera idx) i \<noteq> None"
  defines "start \<equiv> later (real (nat r) * proc_time p) (emit (Opened (Camera idx)) w)"
  defines "n \<equiv> rounds (real_of_int duration) (proc_time p)"
  defines "fp \<equiv> create_filepath p output_dir filetype start"
  shows "\<exists>feed3 wr w'.
      capture_single_video_body p idx duration r output_dir filetype w =
        Some (Inr (feed3, wr), w') \<and>
      fps feed3 = 30 \<and> frame_duration feed3 = 1 / 30 \<and>
      src (camera_feed feed3) = Camera idx \<and> \<not> opened (camera_feed feed3) \<and>
      0 < n \<and> written wr = map (processed p idx) [nat r..<nat r + n] \<and>
      frame_size wr = (cols (hd (written wr)), rows (hd (written wr))) \<and>
      target wr = fp \<and> fourcc wr = ''MJPG'' \<and> rate wr = r \<and>
      clock start = clock w + real (nat r) * proc_time p \<and>
      clock w' = clock start + real n * proc_time p \<and>
      clock start + real_of_int duration \<le> clock w' \<and>
      clock w' - proc_time p < clock start + real_of_int duration \<and>
      trace w' = trace w @ [Opened (Camera idx), WriterReleased fp, Released (Camera idx),
                            Info (''Video was captured for '' @ str_int duration @ '' seconds.'')] \<and>
      files w' = (files w)(fp \<mapsto> Video ''MJPG'' r (frame_size wr) (written wr))"
proof -
  have n0: "0 < n" unfolding n_def using pt d by (intro rounds_pos) simp_all
  have n1: "real_of_int duration \<le> real n * proc_time p"
    unfolding n_def using pt d by (intro rounds_enough) simp_all
  have n2: "real n * proc_time p - proc_time p < real_of_int duration"
    unfolding n_def using pt d by (intro rounds_least) simp_all
  have hd: "hd (map (processed p idx) [nat r..<nat r + n]) = processed p idx (nat r)"
    using n0 by (simp add: upt_conv_Cons)
  have cs: "clock start = clock w + real (nat r) * proc_time p"
    by (simp add: start_def later_simps emit_simps)
  show ?thesis
    using n0 n1 n2
    by (simp add: capture_single_video_body_normal [OF pt d cam, where r = r and w = w
          and output_dir = output_dir and filetype = filetype,
          folded start_def n_def fp_def] hd advance_simps feed_simps VideoCapture_simps cs)
qed

theorem capture_single_video_runs_witness:
  "0 < proc_time studio \<and> (0::int) < 1 \<and> device studio (Camera 0) 3 \<noteq> None \<and>
   map_option (map_sum id (written \<circ> snd) \<circ> fst)
     (capture_single_video_body studio 0 1 2 ''out/captured_videos'' ''avi'' boot) =
     Some (Inr [Frame 480 640 2, Frame 480 640 3]) \<and>
   map_option (map_sum id (frame_size \<circ> snd) \<circ> fst)
     (capture_single_video_body studio 0 1 2 ''out/captured_videos'' ''avi'' boot) =
     Some (Inr (640, 480)) \<and>
   map_option (trace \<circ> snd)
     (capture_single_video_body studio 0 1 2 ''out/captured_videos'' ''avi'' boot) =
     Some [Opened (Camera 0), WriterReleased ''out/captured_videos/2026-11-05-23-51-01.avi'',
           Released (Camera 0), Info ''Video was captured for 1 seconds.''] \<and>
   map_option (clock \<circ> snd)
     (capture_single_video_body studio 0 1 2 ''out/captured_videos'' ''avi'' boot) = Some 2"
proof -
  have pt: "0 < proc_time studio" by (simp add: studio_simps)
  have d: "(0::int) < 1" by simp
  have cam: "\<forall>i. device studio (Camera 0) i \<noteq> None" by (simp add: studio_simps)
  have n: "rounds (real_of_int 1) (proc_time studio) = 2"
    by (simp add: rounds_def studio_simps)
  have st: "strftime (local_time studio 1) = ''2026-11-05-23-51-01''"
    using studio_stamp [of 1 1] by (simp add: digit_char_def)
  have l: "[2..<4] = [2, 3::nat]" by (simp add: upt_rec)
  from capture_single_video_runs [OF pt d cam, where r = 2 and w = boot
      and output_dir = "''out/captured_videos''" and filetype = "''avi''", unfolded n]
  obtain feed3 wr w' where
    run: "capture_single_video_body studio 0 1 2 ''out/captured_videos'' ''avi'' boot =
        Some (Inr (feed3, wr), w')"
    and wr: "written wr = map (processed studio 0) [nat 2..<nat 2 + 2]"
      "frame_size wr = (cols (hd (written wr)), rows (hd (written wr)))"
    and w': "clock w' = clock (later (real (nat 2) * proc_time studio) (emit (Opened (Camera 0)) boot))
               + real 2 * proc_time studio"
      "trace w' = trace boot @ [Opened (Camera 0),
          WriterReleased (create_filepath studio ''out/captured_videos'' ''avi''
             (later (real (nat 2) * proc_time studio) (emit (Opened (Camera 0)) boot))),
          Released (Camera 0), Info (''Video was captured for '' @ str_int 1 @ '' seconds.'')]"
    by blast
  show ?thesis
    using pt
    by (simp add: run wr w' studio_simps boot_simps create_filepath_eq later_simps emit_simps st
        processed_def str_int_small l)
qed

end
